theory Spec2Isabelle
  imports Main "HOL-Library.Word"
begin

unbundle bit_operations_syntax

section \<open>Values of the scripts: bytes, 32-bit integers, strings, errors\<close>

text \<open>
  A Node \<open>Buffer\<close> or \<open>Uint8Array\<close> is a list of 8-bit words.  The operands of
  JavaScript's bitwise operators are 32-bit two's complement integers; \<open><<\<close> and \<open>>>\<close> take
  the shift count modulo 32, and \<open>>>\<close> is the arithmetic shift.  Strings are ASCII here (paths,
  hexadecimal, base64 and address text).  An exception is a value \<open>Inl e\<close>, and so is
  \<open>process.exit(n)\<close>.
\<close>

type_synonym byte = "8 word"
type_synonym bytes = "byte list"
type_synonym int32 = "32 word"

datatype js_error =
    Error string
  | TypeError string
  | RangeError string
  | ReferenceError string
  | ProcessExit nat

definition js_shl :: "int32 \<Rightarrow> nat \<Rightarrow> int32" where
  "js_shl x n = push_bit (n mod 32) x"

definition js_sar :: "int32 \<Rightarrow> nat \<Rightarrow> int32" where
  "js_sar x n = signed_drop_bit (n mod 32) x"

definition charCode :: "char \<Rightarrow> nat" where
  "charCode c = of_char c"

definition charAt :: "string \<Rightarrow> nat \<Rightarrow> string" where
  "charAt s i = (if i < length s then [s ! i] else [])"

definition toLowerCase :: "string \<Rightarrow> string" where
  "toLowerCase s =
     map (\<lambda>c. if 65 \<le> charCode c \<and> charCode c \<le> 90 then char_of (charCode c + 32) else c) s"


text \<open>Template-literal rendering of a non-negative integer, and \<open>parseInt\<close> on a run of digits.\<close>

definition digit_char :: "nat \<Rightarrow> char" where
  "digit_char d = ''0123456789'' ! d"

fun number_toString :: "nat \<Rightarrow> string" where
  "number_toString n =
     (if n < 10 then [digit_char n] else number_toString (n div 10) @ [digit_char (n mod 10)])"

declare number_toString.simps [simp del]

definition isDigit :: "char \<Rightarrow> bool" where
  "isDigit c = (48 \<le> charCode c \<and> charCode c \<le> 57)"

definition parseInt :: "string \<Rightarrow> nat" where
  "parseInt ds = foldl (\<lambda>acc c. acc * 10 + (charCode c - 48)) 0 ds"

section \<open>Hierarchical paths (class QTCHDPath)\<close>

record QTCHDPath =
  purpose :: nat
  account :: nat
  change :: nat
  addressIndex :: nat

text \<open>The constructor with its defaults \<open>(44, 0, 0, 0)\<close>.\<close>

definition new_QTCHDPath :: "nat \<Rightarrow> nat \<Rightarrow> nat \<Rightarrow> nat \<Rightarrow> QTCHDPath" where
  "new_QTCHDPath p a c i = \<lparr>purpose = p, account = a, change = c, addressIndex = i\<rparr>"

definition default_QTCHDPath :: QTCHDPath where
  "default_QTCHDPath = new_QTCHDPath 44 0 0 0"

definition path_toString :: "QTCHDPath \<Rightarrow> string" where
  "path_toString p =
     ''m/'' @ number_toString (purpose p) @ [CHR 0x27] @ ''/'' @
     number_toString (account p) @ [CHR 0x27] @ ''/'' @
     number_toString (change p) @ ''/'' @ number_toString (addressIndex p)"

text \<open>
  \<open>fromString\<close> matches the regular expression
  \<^verbatim>\<open>^m\/(\d+)'\/(\d+)'\/(\d+)\/(\d+)$\<close>.
  Every digit group is followed by a character that is no digit (or by the end), so the
  greedy run of digits is the only candidate for each group; \<open>digits1\<close> reads one group and
  \<open>expect\<close> one literal.
\<close>

definition digits1 :: "string \<Rightarrow> (string \<times> string) option" where
  "digits1 s =
     (if takeWhile isDigit s = [] then None else Some (takeWhile isDigit s, dropWhile isDigit s))"

definition expect :: "string \<Rightarrow> string \<Rightarrow> string option" where
  "expect lit s = (if take (length lit) s = lit then Some (drop (length lit) s) else None)"

definition path_match :: "string \<Rightarrow> (string \<times> string \<times> string \<times> string) option" where
  "path_match s =
     (case expect ''m/'' s of None \<Rightarrow> None | Some r0 \<Rightarrow>
     (case digits1 r0 of None \<Rightarrow> None | Some (g1, r1) \<Rightarrow>
     (case expect (CHR 0x27 # ''/'') r1 of None \<Rightarrow> None | Some r2 \<Rightarrow>
     (case digits1 r2 of None \<Rightarrow> None | Some (g2, r3) \<Rightarrow>
     (case expect (CHR 0x27 # ''/'') r3 of None \<Rightarrow> None | Some r4 \<Rightarrow>
     (case digits1 r4 of None \<Rightarrow> None | Some (g3, r5) \<Rightarrow>
     (case expect ''/'' r5 of None \<Rightarrow> None | Some r6 \<Rightarrow>
     (case digits1 r6 of None \<Rightarrow> None | Some (g4, r7) \<Rightarrow>
        if r7 = [] then Some (g1, g2, g3, g4) else None))))))))"

definition fromString :: "string \<Rightarrow> js_error + QTCHDPath" where
  "fromString pathString =
     (case path_match pathString of
        None \<Rightarrow> Inl (Error ''Invalid HD path format'')
      | Some (g1, g2, g3, g4) \<Rightarrow>
          Inr (new_QTCHDPath (parseInt g1) (parseInt g2) (parseInt g3) (parseInt g4)))"

section \<open>Buffers and their text encodings\<close>

text \<open>\<open>Buffer.from(text)\<close> on ASCII text, \<open>slice(start, stop)\<close>, and \<open>writeUInt32BE\<close>, which
  throws a range error unless its value is an integer in \<open>[0, 2^32 - 1]\<close>.\<close>

definition Buffer_from_string :: "string \<Rightarrow> bytes" where
  "Buffer_from_string s = map (\<lambda>c. of_nat (charCode c)) s"

definition slice :: "'a list \<Rightarrow> nat \<Rightarrow> nat \<Rightarrow> 'a list" where
  "slice xs start stop = take (stop - start) (drop start xs)"

definition writeUInt32BE :: "nat \<Rightarrow> js_error + bytes" where
  "writeUInt32BE v =
     (if v < 2 ^ 32
      then Inr [of_nat (v div 2 ^ 24), of_nat (v div 2 ^ 16), of_nat (v div 2 ^ 8), of_nat v]
      else Inl (RangeError ''ERR_OUT_OF_RANGE''))"

text \<open>\<open>toString("hex")\<close> of a buffer.\<close>

definition hex_digit :: "nat \<Rightarrow> char" where
  "hex_digit d = ''0123456789abcdef'' ! d"

definition toString_hex :: "bytes \<Rightarrow> string" where
  "toString_hex bs = concat (map (\<lambda>b. [hex_digit (unat b div 16), hex_digit (unat b mod 16)]) bs)"

text \<open>
  \<open>b64_encode\<close> of \<^verbatim>\<open>json_emit.cpp\<close>: three bytes are packed into a 32-bit value and cut
  into four 6-bit indices; a missing second or third byte gives \<open>=\<close>.  \<open>toString("base64")\<close>
  of a buffer is the same standard encoding.
\<close>

definition b64_table :: string where
  "b64_table = ''ABCDEFGHIJKLMNOPQRSTUVWXYZabcdefghijklmnopqrstuvwxyz0123456789+/''"

definition b64_char :: "int32 \<Rightarrow> char" where
  "b64_char v = b64_table ! unat (v AND 0x3F)"

fun b64_encode :: "bytes \<Rightarrow> string" where
  "b64_encode [] = []"
| "b64_encode [a] =
     [b64_char (drop_bit 18 (push_bit 16 (ucast a))),
      b64_char (drop_bit 12 (push_bit 16 (ucast a))), CHR ''='', CHR ''='']"
| "b64_encode [a, b] =
     [b64_char (drop_bit 18 (push_bit 16 (ucast a) OR push_bit 8 (ucast b))),
      b64_char (drop_bit 12 (push_bit 16 (ucast a) OR push_bit 8 (ucast b))),
      b64_char (drop_bit 6 (push_bit 16 (ucast a) OR push_bit 8 (ucast b))), CHR ''='']"
| "b64_encode (a # b # c # rest) =
     [b64_char (drop_bit 18 (push_bit 16 (ucast a) OR push_bit 8 (ucast b) OR ucast c)),
      b64_char (drop_bit 12 (push_bit 16 (ucast a) OR push_bit 8 (ucast b) OR ucast c)),
      b64_char (drop_bit 6 (push_bit 16 (ucast a) OR push_bit 8 (ucast b) OR ucast c)),
      b64_char (push_bit 16 (ucast a) OR push_bit 8 (ucast b) OR ucast c)] @ b64_encode rest"

definition toString_base64 :: "bytes \<Rightarrow> string" where
  "toString_base64 = b64_encode"

text \<open>
  \<open>Buffer.from(text, "base64")\<close>: the characters before the first \<open>=\<close> that belong to the
  alphabet, four 6-bit values to three bytes, a trailing group of two or three values to one
  or two bytes.
\<close>

definition b64_value :: "char \<Rightarrow> nat option" where
  "b64_value = map_of (zip b64_table [0..<64])"

fun b64_groups :: "nat list \<Rightarrow> bytes" where
  "b64_groups (a # b # c # d # rest) =
     [of_nat (a * 4 + b div 16), of_nat (b * 16 + c div 4), of_nat (c * 64 + d)] @ b64_groups rest"
| "b64_groups [a, b, c] = [of_nat (a * 4 + b div 16), of_nat (b * 16 + c div 4)]"
| "b64_groups [a, b] = [of_nat (a * 4 + b div 16)]"
| "b64_groups _ = []"

definition Buffer_from_base64 :: "string \<Rightarrow> bytes" where
  "Buffer_from_base64 s =
     b64_groups (List.map_filter b64_value (takeWhile (\<lambda>c. c \<noteq> CHR ''='') s))"

section \<open>Cryptographic primitives of the libraries\<close>

text \<open>
  The hash functions (packages \<^verbatim>\<open>sha3\<close> and Node's \<^verbatim>\<open>crypto\<close>), the lattice schemes
  (\<^verbatim>\<open>noble-post-quantum\<close> in the scripts, \<^verbatim>\<open>liboqs\<close> behind the helper program) and the
  NIST-KAT generator of \<^verbatim>\<open>liboqs\<close> are libraries outside the repository.  They are the
  fields of one record, and everything below holds for every value of it.
  \<^item> \<open>sha3_digest size data\<close>: the digest of a \<open>SHA3(size)\<close> object that absorbed \<open>data\<close>;
  \<^item> \<open>shake_digest size data arg\<close>: what \<open>digest(arg)\<close> returns for a \<open>SHAKE(size)\<close> object
    that absorbed \<open>data\<close>;
  \<^item> \<open>ml_kem1024_keygen seed\<close>: public and secret key of \<open>ml_kem1024.keygen(seed)\<close>;
  \<^item> \<open>ml_kem1024_encaps pk msg\<close>: cipher text and shared secret of
    \<open>ml_kem1024.encapsulate(pk, msg)\<close>;
  \<^item> \<open>ml_dsa65_keygen seed\<close>: public and secret key of \<open>ml_dsa65.keygen(seed)\<close>;
  \<^item> \<open>oqs_shake256 data n\<close>: \<open>n\<close> bytes squeezed by the incremental SHAKE256 of liboqs after
    absorbing \<open>data\<close>;
  \<^item> \<open>nist_kat_init seed48\<close> and \<open>nist_kat_generate ctx n\<close>: the context of the NIST-KAT
    generator after seeding, and its next \<open>n\<close> bytes with the context that follows;
  \<^item> \<open>oqs_kem_enabled\<close>, \<open>oqs_sig_enabled\<close>: whether \<open>OQS_KEM_new\<close>, \<open>OQS_SIG_new\<close> find the
    algorithm;
  \<^item> \<open>oqs_kem_keypair coins\<close>, \<open>oqs_kem_encaps pk coins\<close>, \<open>oqs_sig_keypair coins\<close>: the
    liboqs operations as functions of the random bytes they request (\<open>None\<close>: the call does
    not return \<open>OQS_SUCCESS\<close>).
\<close>

record primitives =
  sha3_digest :: "nat \<Rightarrow> bytes \<Rightarrow> bytes"
  shake_digest :: "nat \<Rightarrow> bytes \<Rightarrow> nat \<Rightarrow> bytes"
  ml_kem1024_keygen :: "bytes \<Rightarrow> bytes \<times> bytes"
  ml_kem1024_encaps :: "bytes \<Rightarrow> bytes \<Rightarrow> bytes \<times> bytes"
  ml_kem1024_decapsulate :: "bytes \<Rightarrow> bytes \<Rightarrow> bytes"
  ml_dsa65_keygen :: "bytes \<Rightarrow> bytes \<times> bytes"
  oqs_shake256 :: "bytes \<Rightarrow> nat \<Rightarrow> bytes"
  nist_kat_init :: "bytes \<Rightarrow> bytes"
  nist_kat_generate :: "bytes \<Rightarrow> nat \<Rightarrow> bytes \<times> bytes"
  oqs_kem_enabled :: bool
  oqs_sig_enabled :: bool
  oqs_kem_keypair :: "bytes \<Rightarrow> (bytes \<times> bytes) option"
  oqs_kem_encaps :: "bytes \<Rightarrow> bytes \<Rightarrow> (bytes \<times> bytes) option"
  oqs_sig_keypair :: "bytes \<Rightarrow> (bytes \<times> bytes) option"

subsection \<open>Hash objects of the package sha3\<close>

text \<open>\<open>update\<close> appends to what the object has absorbed; \<open>digest\<close> hashes all of it.\<close>

record SHA3 =
  sha3_size :: nat
  sha3_absorbed :: bytes

record SHAKE =
  shake_size :: nat
  shake_absorbed :: bytes

definition new_SHA3 :: "nat \<Rightarrow> SHA3" where
  "new_SHA3 sz = \<lparr>sha3_size = sz, sha3_absorbed = []\<rparr>"

definition SHA3_update :: "SHA3 \<Rightarrow> bytes \<Rightarrow> SHA3" where
  "SHA3_update h data = h\<lparr>sha3_absorbed := sha3_absorbed h @ data\<rparr>"

definition SHA3_digest :: "primitives \<Rightarrow> SHA3 \<Rightarrow> bytes" where
  "SHA3_digest P h = sha3_digest P (sha3_size h) (sha3_absorbed h)"

definition new_SHAKE :: "nat \<Rightarrow> SHAKE" where
  "new_SHAKE sz = \<lparr>shake_size = sz, shake_absorbed = []\<rparr>"

definition SHAKE_update :: "SHAKE \<Rightarrow> bytes \<Rightarrow> SHAKE" where
  "SHAKE_update h data = h\<lparr>shake_absorbed := shake_absorbed h @ data\<rparr>"

definition SHAKE_digest :: "primitives \<Rightarrow> SHAKE \<Rightarrow> nat \<Rightarrow> bytes" where
  "SHAKE_digest P h arg = shake_digest P (shake_size h) (shake_absorbed h) arg"

text \<open>\<open>crypto.createHash("sha3-512").update(data).digest()\<close> of Node.\<close>

definition createHash_sha3_512 :: "primitives \<Rightarrow> bytes \<Rightarrow> bytes" where
  "createHash_sha3_512 P data = sha3_digest P 512 data"

subsection \<open>Operating-system randomness\<close>

text \<open>
  The operating system's generator is an endless stream of bytes; \<open>randomBytes n\<close> hands out
  the next \<open>n\<close> and leaves the rest.  \<open>ml_kem1024.encapsulate(publicKey)\<close> is called with one
  argument, so its message defaults to \<open>randomBytes(32)\<close>.
\<close>

type_synonym entropy = "nat \<Rightarrow> byte"

definition randomBytes :: "nat \<Rightarrow> entropy \<Rightarrow> bytes \<times> entropy" where
  "randomBytes n os = (map os [0..<n], \<lambda>i. os (i + n))"

definition ml_kem1024_encapsulate :: "primitives \<Rightarrow> bytes \<Rightarrow> entropy \<Rightarrow> (bytes \<times> bytes) \<times> entropy" where
  "ml_kem1024_encapsulate P publicKey os =
     (case randomBytes 32 os of (msg, os') \<Rightarrow> (ml_kem1024_encaps P publicKey msg, os'))"

section \<open>The address codec (package bech32, as imported by every script)\<close>

text \<open>
  Every script has \<^verbatim>\<open>import { bech32 } from "bech32"\<close> and calls \<open>bech32.toWords\<close> and
  \<open>bech32.encode\<close>.  The package builds two objects with one function,
  \<open>getLibraryFromEncoding\<close>: the export \<open>bech32\<close> has the checksum constant \<open>1\<close>, the export
  \<open>bech32m\<close> the constant \<open>0x2bc830a3\<close>.  The functions below follow the package; the
  encoding is their first argument.
\<close>

definition ALPHABET :: string where
  "ALPHABET = ''qpzry9x8gf2tvdw0s3jn54khce6mua7l''"


definition polymodStep :: "int32 \<Rightarrow> int32" where
  "polymodStep pre =
     js_shl (pre AND 0x1ffffff) 5 XOR
     (- (js_sar (js_sar pre 25) 0 AND 1) AND 0x3b6a57b2) XOR
     (- (js_sar (js_sar pre 25) 1 AND 1) AND 0x26508e6d) XOR
     (- (js_sar (js_sar pre 25) 2 AND 1) AND 0x1ea119fa) XOR
     (- (js_sar (js_sar pre 25) 3 AND 1) AND 0x3d4233dd) XOR
     (- (js_sar (js_sar pre 25) 4 AND 1) AND 0x2a1462b3)"

text \<open>\<open>prefixChk\<close>: the high bits of every character, a zero, then the low bits.\<close>

fun prefixChk_high :: "string \<Rightarrow> int32 \<Rightarrow> int32 option" where
  "prefixChk_high [] chk = Some chk"
| "prefixChk_high (c # cs) chk =
     (if charCode c < 33 \<or> charCode c > 126 then None
      else prefixChk_high cs (polymodStep chk XOR js_sar (of_nat (charCode c)) 5))"

fun prefixChk_low :: "string \<Rightarrow> int32 \<Rightarrow> int32" where
  "prefixChk_low [] chk = chk"
| "prefixChk_low (v # vs) chk =
     prefixChk_low vs (polymodStep chk XOR (of_nat (charCode v) AND 0x1f))"

definition prefixChk :: "string \<Rightarrow> string + int32" where
  "prefixChk prefix =
     (case prefixChk_high prefix 1 of
        None \<Rightarrow> Inl (''Invalid prefix ('' @ prefix @ '')'')
      | Some chk \<Rightarrow> Inr (prefixChk_low prefix (polymodStep chk)))"

text \<open>
  \<open>convert(data, inBits, outBits, pad)\<close>: the outer loop shifts every datum into \<open>value\<close>, the
  inner loop (\<open>convert_emit\<close>) takes \<open>outBits\<close> bits off while there are enough.  The package
  calls it with \<open>outBits\<close> 5 and 8 only; the inner loop would not end with \<open>outBits = 0\<close>, and
  the model stops there.
\<close>

function convert_emit :: "int32 \<Rightarrow> nat \<Rightarrow> nat \<Rightarrow> int32 \<Rightarrow> int32 list \<Rightarrow> nat \<times> int32 list" where
  "convert_emit value bits outBits maxV result =
     (if 0 < outBits \<and> outBits \<le> bits
      then convert_emit value (bits - outBits) outBits maxV
             (result @ [js_sar value (bits - outBits) AND maxV])
      else (bits, result))"
  by pat_completeness auto
termination
  by (relation "measure (\<lambda>(v, bits, ob, m, r). bits)") auto

declare convert_emit.simps [simp del]

definition convert_step :: "nat \<Rightarrow> nat \<Rightarrow> int32 \<Rightarrow> int32 \<times> nat \<times> int32 list \<Rightarrow> int32
    \<Rightarrow> int32 \<times> nat \<times> int32 list" where
  "convert_step inBits outBits maxV st d =
     (case st of (value, bits, result) \<Rightarrow>
        (case convert_emit (js_shl value inBits OR d) (bits + inBits) outBits maxV result of
           (bits', result') \<Rightarrow> (js_shl value inBits OR d, bits', result')))"

definition convert_loop :: "int32 list \<Rightarrow> nat \<Rightarrow> nat \<Rightarrow> int32 \<Rightarrow> int32 \<times> nat \<times> int32 list" where
  "convert_loop data inBits outBits maxV =
     foldl (convert_step inBits outBits maxV) (0, 0, []) data"

definition convert :: "int32 list \<Rightarrow> nat \<Rightarrow> nat \<Rightarrow> bool \<Rightarrow> string + int32 list" where
  "convert data inBits outBits pad =
     (case convert_loop data inBits outBits (js_shl 1 outBits - 1) of
        (value, bits, result) \<Rightarrow>
          if pad then
            (if 0 < bits
             then Inr (result @ [js_shl value (outBits - bits) AND (js_shl 1 outBits - 1)])
             else Inr result)
          else if inBits \<le> bits then Inl ''Excess padding''
          else if js_shl value (outBits - bits) AND (js_shl 1 outBits - 1) \<noteq> 0
            then Inl ''Non-zero padding''
          else Inr result)"

definition toWords :: "bytes \<Rightarrow> string + int32 list" where
  "toWords bs = convert (map ucast bs) 8 5 True"


datatype encoding = Bech32 | Bech32m

definition ENCODING_CONST :: "encoding \<Rightarrow> int32" where
  "ENCODING_CONST enc = (case enc of Bech32 \<Rightarrow> 1 | Bech32m \<Rightarrow> 0x2bc830a3)"

text \<open>\<open>encode(prefix, words)\<close> with the default limit of 90 characters.\<close>

fun encode_words :: "int32 list \<Rightarrow> int32 \<Rightarrow> string \<Rightarrow> js_error + int32 \<times> string" where
  "encode_words [] chk result = Inr (chk, result)"
| "encode_words (x # xs) chk result =
     (if js_sar x 5 \<noteq> 0 then Inl (Error ''Non 5-bit word'')
      else encode_words xs (polymodStep chk XOR x) (result @ charAt ALPHABET (unat x)))"

definition polymod_six :: "int32 \<Rightarrow> int32" where
  "polymod_six chk =
     polymodStep (polymodStep (polymodStep (polymodStep (polymodStep (polymodStep chk)))))"

definition encode_checksum :: "int32 \<Rightarrow> string" where
  "encode_checksum chk =
     concat (map (\<lambda>i. charAt ALPHABET (unat (js_sar chk ((5 - i) * 5) AND 0x1f))) [0..<6])"

definition encode :: "encoding \<Rightarrow> string \<Rightarrow> int32 list \<Rightarrow> js_error + string" where
  "encode enc prefix words =
     (if length prefix + 7 + length words > 90 then Inl (TypeError ''Exceeds length limit'')
      else (case prefixChk (toLowerCase prefix) of
        Inl msg \<Rightarrow> Inl (Error msg)
      | Inr chk0 \<Rightarrow>
          (case encode_words words chk0 (toLowerCase prefix @ ''1'') of
             Inl e \<Rightarrow> Inl e
           | Inr (chk, result) \<Rightarrow>
               Inr (result @ encode_checksum (polymod_six chk XOR ENCODING_CONST enc)))))"






section \<open>The helper program oqs_wallet_cli\<close>

text \<open>
  \<^verbatim>\<open>main.cpp\<close>, \<^verbatim>\<open>rng_deterministic.cpp\<close> and \<^verbatim>\<open>json_emit.cpp\<close>.  A C++ exception is a value
  \<open>Inl (runtime_error msg)\<close>; \<open>main\<close> turns it into exit status 99.
\<close>

datatype cxx_error = runtime_error string

definition nyb :: "char \<Rightarrow> int" where
  "nyb c =
     (if 48 \<le> charCode c \<and> charCode c \<le> 57 then int (charCode c) - 48
      else if 97 \<le> charCode c \<and> charCode c \<le> 102 then int (charCode c) - 97 + 10
      else if 65 \<le> charCode c \<and> charCode c \<le> 70 then int (charCode c) - 65 + 10
      else - 1)"

fun hex2bin_pairs :: "string \<Rightarrow> cxx_error + bytes" where
  "hex2bin_pairs (h # l # rest) =
     (if nyb h < 0 \<or> nyb l < 0 then Inl (runtime_error ''invalid hex'')
      else (case hex2bin_pairs rest of
              Inl e \<Rightarrow> Inl e
            | Inr out \<Rightarrow> Inr (of_int (push_bit 4 (nyb h) OR nyb l) # out)))"
| "hex2bin_pairs _ = Inr []"

definition hex2bin :: "string \<Rightarrow> cxx_error + bytes" where
  "hex2bin hex =
     (if length hex mod 2 \<noteq> 0 then Inl (runtime_error ''seed_hex length must be even'')
      else hex2bin_pairs hex)"

text \<open>
  The random-number state of the process: the selected algorithm, the context of the
  NIST-KAT generator, and the operating system's stream.  \<open>OQS_randombytes\<close> reads from the
  selected one.
\<close>

datatype rand_alg = OQS_RAND_alg_system | OQS_RAND_alg_nist_kat

record oqs_rand =
  alg :: rand_alg
  kat_ctx :: bytes
  system_rng :: entropy

definition OQS_randombytes :: "primitives \<Rightarrow> nat \<Rightarrow> oqs_rand \<Rightarrow> bytes \<times> oqs_rand" where
  "OQS_randombytes P n st =
     (case alg st of
        OQS_RAND_alg_system \<Rightarrow>
          (case randomBytes n (system_rng st) of (out, os') \<Rightarrow> (out, st\<lparr>system_rng := os'\<rparr>))
      | OQS_RAND_alg_nist_kat \<Rightarrow>
          (case nist_kat_generate P (kat_ctx st) n of (out, ctx') \<Rightarrow> (out, st\<lparr>kat_ctx := ctx'\<rparr>)))"

text \<open>\<open>shake256_expand_seed_48\<close>: absorb the prefix, the domain and the seed; the output
  vector has 48 bytes, filled by the squeeze.\<close>

definition shake256_expand_seed_48 :: "primitives \<Rightarrow> bytes \<Rightarrow> string \<Rightarrow> bytes" where
  "shake256_expand_seed_48 P seed domain =
     take 48
       (oqs_shake256 P
          (Buffer_from_string ''oqs_wallet_cli'' @ Buffer_from_string domain @ seed) 48
        @ replicate 48 0)"

definition init_nist_kat_drbg_48 :: "primitives \<Rightarrow> bytes \<Rightarrow> oqs_rand \<Rightarrow> cxx_error + oqs_rand" where
  "init_nist_kat_drbg_48 P seed48 st =
     (if length seed48 \<noteq> 48 then Inl (runtime_error ''seed48 must be exactly 48 bytes'')
      else Inr (st\<lparr>kat_ctx := nist_kat_init P seed48, alg := OQS_RAND_alg_nist_kat\<rparr>))"

text \<open>\<open>RngScope\<close>: the constructor installs the seeded generator, the destructor selects the
  system generator again.\<close>

definition RngScope_enter :: "primitives \<Rightarrow> bytes \<Rightarrow> string \<Rightarrow> oqs_rand \<Rightarrow> cxx_error + oqs_rand" where
  "RngScope_enter P seed domain st =
     init_nist_kat_drbg_48 P (shake256_expand_seed_48 P seed domain) st"

definition RngScope_exit :: "oqs_rand \<Rightarrow> oqs_rand" where
  "RngScope_exit st = st\<lparr>alg := OQS_RAND_alg_system\<rparr>"

text \<open>The liboqs operations draw their random bytes through \<open>OQS_randombytes\<close>: 64 for a
  key-encapsulation key pair, 32 for an encapsulation, 32 for a signature key pair.\<close>

definition OQS_KEM_keypair :: "primitives \<Rightarrow> oqs_rand \<Rightarrow> (bytes \<times> bytes) option \<times> oqs_rand" where
  "OQS_KEM_keypair P st =
     (case OQS_randombytes P 64 st of (coins, st') \<Rightarrow> (oqs_kem_keypair P coins, st'))"

definition OQS_KEM_encaps :: "primitives \<Rightarrow> bytes \<Rightarrow> oqs_rand \<Rightarrow> (bytes \<times> bytes) option \<times> oqs_rand" where
  "OQS_KEM_encaps P pk st =
     (case OQS_randombytes P 32 st of (coins, st') \<Rightarrow> (oqs_kem_encaps P pk coins, st'))"

definition OQS_SIG_keypair :: "primitives \<Rightarrow> oqs_rand \<Rightarrow> (bytes \<times> bytes) option \<times> oqs_rand" where
  "OQS_SIG_keypair P st =
     (case OQS_randombytes P 32 st of (coins, st') \<Rightarrow> (oqs_sig_keypair P coins, st'))"

text \<open>What a run leaves behind: the exit status, the JSON object printed on standard output
  (its pairs in order) and the text on standard error.\<close>

record cli_result =
  status :: nat
  stdout :: "(string \<times> string) list"
  stderr :: string

definition cli_fail :: "nat \<Rightarrow> string \<Rightarrow> cli_result" where
  "cli_fail n msg = \<lparr>status = n, stdout = [], stderr = msg\<rparr>"

definition cmd_gen_kyber_from_seed :: "primitives \<Rightarrow> string \<Rightarrow> oqs_rand \<Rightarrow> (cxx_error + cli_result) \<times> oqs_rand" where
  "cmd_gen_kyber_from_seed P seed_hex st =
     (case hex2bin seed_hex of Inl e \<Rightarrow> (Inl e, st) | Inr seed \<Rightarrow>
     (case RngScope_enter P seed ''kyber_keygen'' st of Inl e \<Rightarrow> (Inl e, st) | Inr st1 \<Rightarrow>
       if \<not> oqs_kem_enabled P
       then (Inr (cli_fail 2 ''error: ML-KEM-1024 unavailable''), RngScope_exit st1)
       else (case OQS_KEM_keypair P st1 of
          (None, st2) \<Rightarrow> (Inr (cli_fail 3 ''error: KEM keypair failed''), RngScope_exit st2)
        | (Some (pk, sk), st2) \<Rightarrow>
            (Inr \<lparr>status = 0,
                  stdout = [(''kyber_public_b64'', b64_encode pk),
                            (''kyber_private_b64'', b64_encode sk)],
                  stderr = []\<rparr>, RngScope_exit st2))))"

definition cmd_gen_dilithium_from_seed :: "primitives \<Rightarrow> string \<Rightarrow> oqs_rand \<Rightarrow> (cxx_error + cli_result) \<times> oqs_rand" where
  "cmd_gen_dilithium_from_seed P seed_hex st =
     (case hex2bin seed_hex of Inl e \<Rightarrow> (Inl e, st) | Inr seed \<Rightarrow>
     (case RngScope_enter P seed ''dilithium_keygen'' st of Inl e \<Rightarrow> (Inl e, st) | Inr st1 \<Rightarrow>
       if \<not> oqs_sig_enabled P
       then (Inr (cli_fail 2 ''error: ML-DSA-65 unavailable''), RngScope_exit st1)
       else (case OQS_SIG_keypair P st1 of
          (None, st2) \<Rightarrow> (Inr (cli_fail 3 ''error: SIG keypair failed''), RngScope_exit st2)
        | (Some (pk, sk), st2) \<Rightarrow>
            (Inr \<lparr>status = 0,
                  stdout = [(''dilithium_public_b64'', b64_encode pk),
                            (''dilithium_private_b64'', b64_encode sk)],
                  stderr = []\<rparr>, RngScope_exit st2))))"

definition cmd_kem_self_from_seed :: "primitives \<Rightarrow> string \<Rightarrow> oqs_rand \<Rightarrow> (cxx_error + cli_result) \<times> oqs_rand" where
  "cmd_kem_self_from_seed P seed_hex st =
     (case hex2bin seed_hex of Inl e \<Rightarrow> (Inl e, st) | Inr seed \<Rightarrow>
     (case RngScope_enter P seed ''kyber_kem_self'' st of Inl e \<Rightarrow> (Inl e, st) | Inr st1 \<Rightarrow>
       if \<not> oqs_kem_enabled P
       then (Inr (cli_fail 2 ''error: ML-KEM-1024 unavailable''), RngScope_exit st1)
       else (case OQS_KEM_keypair P st1 of
          (None, st2) \<Rightarrow> (Inr (cli_fail 3 ''error: KEM keypair failed''), RngScope_exit st2)
        | (Some (pk, sk), st2) \<Rightarrow>
            (case OQS_KEM_encaps P pk st2 of
               (None, st3) \<Rightarrow> (Inr (cli_fail 4 ''error: KEM encaps failed''), RngScope_exit st3)
             | (Some (ct, ss), st3) \<Rightarrow>
                 (Inr \<lparr>status = 0,
                       stdout = [(''kyber_public_b64'', b64_encode pk),
                                 (''kyber_private_b64'', b64_encode sk),
                                 (''shared_b64'', b64_encode ss)],
                       stderr = []\<rparr>, RngScope_exit st3)))))"

text \<open>\<open>main\<close> on the arguments after the program name; the process starts with the system
  generator selected.\<close>

definition cli_dispatch :: "primitives \<Rightarrow> string list \<Rightarrow> oqs_rand \<Rightarrow> (cxx_error + cli_result) \<times> oqs_rand" where
  "cli_dispatch P args st =
     (case args of
        [cmd, seed_hex] \<Rightarrow>
          if cmd = ''gen_kyber_from_seed'' then cmd_gen_kyber_from_seed P seed_hex st
          else if cmd = ''gen_dilithium_from_seed'' then cmd_gen_dilithium_from_seed P seed_hex st
          else if cmd = ''kem_self_from_seed'' then cmd_kem_self_from_seed P seed_hex st
          else (Inr (cli_fail 1 ''unknown command''), st)
      | _ \<Rightarrow> (Inr (cli_fail 1 ''usage''), st))"

definition oqs_wallet_cli :: "primitives \<Rightarrow> string list \<Rightarrow> entropy \<Rightarrow> cli_result \<times> entropy" where
  "oqs_wallet_cli P args os =
     (case cli_dispatch P args \<lparr>alg = OQS_RAND_alg_system, kat_ctx = [], system_rng = os\<rparr> of
        (Inl (runtime_error what), st) \<Rightarrow> (cli_fail 99 (''error: '' @ what), system_rng st)
      | (Inr r, st) \<Rightarrow> (r, system_rng st))"

text \<open>The scripts' side of the bridge: \<open>spawnSync(cli, args)\<close> runs the program;
  \<open>JSON.parse(stdout)\<close> and \<open>Buffer.from(field, "base64")\<close> read a field back (a missing field
  is \<open>undefined\<close>, on which \<open>Buffer.from\<close> throws a type error).\<close>

definition json_field_base64 :: "(string \<times> string) list \<Rightarrow> string \<Rightarrow> js_error + bytes" where
  "json_field_base64 obj key =
     (case map_of obj key of
        None \<Rightarrow> Inl (TypeError ''The first argument must be of type string'')
      | Some text \<Rightarrow> Inr (Buffer_from_base64 text))"

section \<open>Steps shared by the scripts\<close>

text \<open>
  Step 1 of \<open>generateWallet\<close> (\<^verbatim>\<open>qti2.js\<close>, \<^verbatim>\<open>qtc2.js\<close>), of the pure-JavaScript
  \<open>generatePQHDWallet\<close> and of the pure-JavaScript \<open>generateMaster\<close>: a 64-byte seed from the
  operating system, \<open>ml_kem1024.keygen(kyber_seed)\<close>, then \<open>ml_kem1024.encapsulate(kyber_pk)\<close>.
  The result of \<open>decapsulate\<close> is bound to \<open>ss2\<close> and never read.
\<close>

definition noble_kyber_step :: "primitives \<Rightarrow> entropy \<Rightarrow> (bytes \<times> bytes \<times> bytes) \<times> entropy" where
  "noble_kyber_step P os =
     (case randomBytes 64 os of (kyber_seed, os1) \<Rightarrow>
       (case ml_kem1024_keygen P kyber_seed of (kyber_pk, kyber_sk) \<Rightarrow>
         (case ml_kem1024_encapsulate P kyber_pk os1 of ((cipher, ss1), os2) \<Rightarrow>
            ((kyber_pk, kyber_sk, ss1), os2))))"

text \<open>The seed of the provisional Dilithium key pair in the PQ-HD scripts:
  \<open>SHAKE(256)\<close>, \<open>update(sharedSecret)\<close>, \<open>update("QTC_PQHD_DILITHIUM")\<close>, \<open>digest(32)\<close>.\<close>

definition pqhd_dilithium_seed :: "primitives \<Rightarrow> bytes \<Rightarrow> bytes" where
  "pqhd_dilithium_seed P sharedSecret =
     SHAKE_digest P
       (SHAKE_update (SHAKE_update (new_SHAKE 256) sharedSecret)
          (Buffer_from_string ''QTC_PQHD_DILITHIUM'')) 32"

text \<open>\<open>new SHA3(256)\<close>, \<open>update(data)\<close>, \<open>digest()\<close>, \<open>slice(0, 20)\<close>.\<close>

definition sha3_256_first20 :: "primitives \<Rightarrow> bytes \<Rightarrow> bytes" where
  "sha3_256_first20 P data = slice (SHA3_digest P (SHA3_update (new_SHA3 256) data)) 0 20"

text \<open>
  The two ways the scripts call the codec: \<^verbatim>\<open>qti2.js\<close> encodes the words alone; all other
  scripts encode \<open>[witnessVersion, ...words]\<close>.  Both go through \<open>bech32.encode("qtc", _)\<close>.
\<close>

definition encode_plain :: "bytes \<Rightarrow> js_error + string" where
  "encode_plain addressBytes =
     (case toWords addressBytes of
        Inl msg \<Rightarrow> Inl (TypeError msg)
      | Inr words \<Rightarrow> encode Bech32 ''qtc'' words)"

definition encode_versioned :: "int32 \<Rightarrow> bytes \<Rightarrow> js_error + string" where
  "encode_versioned witnessVersion addressBytes =
     (case toWords addressBytes of
        Inl msg \<Rightarrow> Inl (TypeError msg)
      | Inr words \<Rightarrow> encode Bech32 ''qtc'' (witnessVersion # words))"

section \<open>The Primary method: generateWallet of qti2.js and of qtc2.js\<close>

text \<open>The local variables of one run, and the wallet object written at the end.\<close>

record primary_locals =
  pl_kyber_pk :: bytes
  pl_kyber_sk :: bytes
  pl_sharedSecret :: bytes
  pl_entropy :: bytes
  pl_dilithium_pk :: bytes
  pl_dilithium_sk :: bytes
  pl_addressBytes :: bytes
  pl_address :: string

record primary_wallet =
  pw_address :: string
  pw_entropy_b64 :: string
  pw_kyber_public_b64 :: string
  pw_kyber_private_b64 :: string
  pw_dilithium_public_b64 :: string
  pw_dilithium_private_b64 :: string
  pw_shared_secret_b64 :: string

definition primary_wallet_of :: "primary_locals \<Rightarrow> primary_wallet" where
  "primary_wallet_of l =
     \<lparr>pw_address = pl_address l,
      pw_entropy_b64 = toString_base64 (pl_entropy l),
      pw_kyber_public_b64 = toString_base64 (pl_kyber_pk l),
      pw_kyber_private_b64 = toString_base64 (pl_kyber_sk l),
      pw_dilithium_public_b64 = toString_base64 (pl_dilithium_pk l),
      pw_dilithium_private_b64 = toString_base64 (pl_dilithium_sk l),
      pw_shared_secret_b64 = toString_base64 (pl_sharedSecret l)\<rparr>"

text \<open>Steps 2 to 4 of \<^verbatim>\<open>qti2.js\<close>, from the key-encapsulation material on.\<close>

definition qti2_from_kem :: "primitives \<Rightarrow> bytes \<times> bytes \<times> bytes \<Rightarrow> js_error + primary_locals" where
  "qti2_from_kem P k =
     (case k of (kyber_pk, kyber_sk, sharedSecret) \<Rightarrow>
       (case ml_dsa65_keygen P (slice (createHash_sha3_512 P sharedSecret) 0 32) of
          (dilithium_pk, dilithium_sk) \<Rightarrow>
            (case encode_plain (sha3_256_first20 P dilithium_pk) of
               Inl e \<Rightarrow> Inl e
             | Inr address \<Rightarrow>
                 Inr \<lparr>pl_kyber_pk = kyber_pk, pl_kyber_sk = kyber_sk,
                      pl_sharedSecret = sharedSecret,
                      pl_entropy = createHash_sha3_512 P sharedSecret,
                      pl_dilithium_pk = dilithium_pk, pl_dilithium_sk = dilithium_sk,
                      pl_addressBytes = sha3_256_first20 P dilithium_pk,
                      pl_address = address\<rparr>)))"

definition qti2_run :: "primitives \<Rightarrow> entropy \<Rightarrow> (js_error + primary_locals) \<times> entropy" where
  "qti2_run P os = (case noble_kyber_step P os of (k, os') \<Rightarrow> (qti2_from_kem P k, os'))"

definition qti2_generateWallet :: "primitives \<Rightarrow> entropy \<Rightarrow> (js_error + primary_wallet) \<times> entropy" where
  "qti2_generateWallet P os =
     (case qti2_run P os of (r, os') \<Rightarrow> (map_sum id primary_wallet_of r, os'))"

text \<open>\<^verbatim>\<open>qtc2.js\<close>: the entropy is \<open>SHAKE(256)\<close>, \<open>update(sharedSecret)\<close>, \<open>digest(64)\<close>, and the
  address carries witness version 1.\<close>

definition qtc2_entropy :: "primitives \<Rightarrow> bytes \<Rightarrow> bytes" where
  "qtc2_entropy P sharedSecret = SHAKE_digest P (SHAKE_update (new_SHAKE 256) sharedSecret) 64"

definition qtc2_from_kem :: "primitives \<Rightarrow> bytes \<times> bytes \<times> bytes \<Rightarrow> js_error + primary_locals" where
  "qtc2_from_kem P k =
     (case k of (kyber_pk, kyber_sk, sharedSecret) \<Rightarrow>
       (case ml_dsa65_keygen P (slice (qtc2_entropy P sharedSecret) 0 32) of
          (dilithium_pk, dilithium_sk) \<Rightarrow>
            (case encode_versioned 1 (sha3_256_first20 P dilithium_pk) of
               Inl e \<Rightarrow> Inl e
             | Inr address \<Rightarrow>
                 Inr \<lparr>pl_kyber_pk = kyber_pk, pl_kyber_sk = kyber_sk,
                      pl_sharedSecret = sharedSecret,
                      pl_entropy = qtc2_entropy P sharedSecret,
                      pl_dilithium_pk = dilithium_pk, pl_dilithium_sk = dilithium_sk,
                      pl_addressBytes = sha3_256_first20 P dilithium_pk,
                      pl_address = address\<rparr>)))"

definition qtc2_run :: "primitives \<Rightarrow> entropy \<Rightarrow> (js_error + primary_locals) \<times> entropy" where
  "qtc2_run P os = (case noble_kyber_step P os of (k, os') \<Rightarrow> (qtc2_from_kem P k, os'))"

definition qtc2_generateWallet :: "primitives \<Rightarrow> entropy \<Rightarrow> (js_error + primary_wallet) \<times> entropy" where
  "qtc2_generateWallet P os =
     (case qtc2_run P os of (r, os') \<Rightarrow> (map_sum id primary_wallet_of r, os'))"

section \<open>The single PQ-HD method: generatePQHDWallet\<close>

text \<open>
  Two scripts define \<open>generatePQHDWallet\<close>: a pure-JavaScript one (prefix \<open>pqhd_js\<close>) and
  \<^verbatim>\<open>qti3.js\<close>, which obtains the keys from the helper program (prefix \<open>qti3\<close>).
\<close>

record pqhd_locals =
  ql_kyber_pk :: bytes
  ql_kyber_sk :: bytes
  ql_sharedSecret :: bytes
  ql_dilithium_pk :: bytes
  ql_dilithium_sk :: bytes
  ql_master_entropy :: bytes
  ql_addressBytes :: bytes
  ql_address :: string

record pqhd_wallet =
  qw_address :: string
  qw_method :: string
  qw_witness_version :: nat
  qw_master_entropy_b64 :: string
  qw_kyber_public_b64 :: string
  qw_kyber_private_b64 :: string
  qw_dilithium_public_b64 :: string
  qw_dilithium_private_b64 :: string
  qw_kyber_shared_secret_b64 :: string
  qw_combined_input_b64 :: string
  qw_algorithm :: string
  qw_quantum_safe :: bool
  qw_version :: string
  qw_description :: string

text \<open>
  The object literal \<open>pqhd_wallet\<close> is the same text in both scripts.  Its property values
  are evaluated in order; an identifier is resolved in the bindings that are in scope, and
  an identifier with no binding throws a reference error.  \<open>scope\<close> lists the buffer-valued
  bindings of the function body at the literal.
\<close>

definition bind_js :: "js_error + 'a \<Rightarrow> ('a \<Rightarrow> js_error + 'b) \<Rightarrow> js_error + 'b" where
  "bind_js m f = (case m of Inl e \<Rightarrow> Inl e | Inr x \<Rightarrow> f x)"

definition identifier_base64 :: "(string \<times> bytes) list \<Rightarrow> string \<Rightarrow> js_error + string" where
  "identifier_base64 scope name =
     (case map_of scope name of
        None \<Rightarrow> Inl (ReferenceError (name @ '' is not defined''))
      | Some buf \<Rightarrow> Inr (toString_base64 buf))"

definition pqhd_wallet_literal :: "(string \<times> bytes) list \<Rightarrow> string \<Rightarrow> js_error + pqhd_wallet" where
  "pqhd_wallet_literal scope address =
     bind_js (identifier_base64 scope ''master_entropy'') (\<lambda>master_entropy_b64.
     bind_js (identifier_base64 scope ''kyber_pk'') (\<lambda>kyber_public_b64.
     bind_js (identifier_base64 scope ''kyber_sk'') (\<lambda>kyber_private_b64.
     bind_js (identifier_base64 scope ''dilithium_pk'') (\<lambda>dilithium_public_b64.
     bind_js (identifier_base64 scope ''dilithium_sk'') (\<lambda>dilithium_private_b64.
     bind_js (identifier_base64 scope ''sharedSecret'') (\<lambda>kyber_shared_secret_b64.
     bind_js (identifier_base64 scope ''combined_input'') (\<lambda>combined_input_b64.
       Inr \<lparr>qw_address = address,
            qw_method = ''PQ-HD'',
            qw_witness_version = 2,
            qw_master_entropy_b64 = master_entropy_b64,
            qw_kyber_public_b64 = kyber_public_b64,
            qw_kyber_private_b64 = kyber_private_b64,
            qw_dilithium_public_b64 = dilithium_public_b64,
            qw_dilithium_private_b64 = dilithium_private_b64,
            qw_kyber_shared_secret_b64 = kyber_shared_secret_b64,
            qw_combined_input_b64 = combined_input_b64,
            qw_algorithm = ''Kyber1024-KEM + Dilithium3-DSA (Deterministic PQ-HD)'',
            qw_quantum_safe = True,
            qw_version = ''QTC-PQHD-1.0'',
            qw_description = ''QTC PQ-HD Wallet for External Wallet Integration''\<rparr>)))))))"

subsection \<open>The pure-JavaScript script\<close>

text \<open>Step 3 there: \<open>SHAKE(256)\<close>, \<open>update(sharedSecret)\<close>, \<open>update(dilithium_pk)\<close>, \<open>digest(64)\<close>.\<close>

definition pqhd_js_master_hash :: "bytes \<Rightarrow> bytes \<Rightarrow> SHAKE" where
  "pqhd_js_master_hash sharedSecret dilithium_pk =
     SHAKE_update (SHAKE_update (new_SHAKE 256) sharedSecret) dilithium_pk"

definition pqhd_js_from_kem :: "primitives \<Rightarrow> bytes \<times> bytes \<times> bytes \<Rightarrow> js_error + pqhd_locals" where
  "pqhd_js_from_kem P k =
     (case k of (kyber_pk, kyber_sk, sharedSecret) \<Rightarrow>
       (case ml_dsa65_keygen P (pqhd_dilithium_seed P sharedSecret) of
          (dilithium_pk, dilithium_sk) \<Rightarrow>
            (case encode_versioned 2
                    (sha3_256_first20 P
                       (SHAKE_digest P (pqhd_js_master_hash sharedSecret dilithium_pk) 64)) of
               Inl e \<Rightarrow> Inl e
             | Inr address \<Rightarrow>
                 Inr \<lparr>ql_kyber_pk = kyber_pk, ql_kyber_sk = kyber_sk,
                      ql_sharedSecret = sharedSecret,
                      ql_dilithium_pk = dilithium_pk, ql_dilithium_sk = dilithium_sk,
                      ql_master_entropy =
                        SHAKE_digest P (pqhd_js_master_hash sharedSecret dilithium_pk) 64,
                      ql_addressBytes =
                        sha3_256_first20 P
                          (SHAKE_digest P (pqhd_js_master_hash sharedSecret dilithium_pk) 64),
                      ql_address = address\<rparr>)))"

definition pqhd_js_run :: "primitives \<Rightarrow> entropy \<Rightarrow> (js_error + pqhd_locals) \<times> entropy" where
  "pqhd_js_run P os = (case noble_kyber_step P os of (k, os') \<Rightarrow> (pqhd_js_from_kem P k, os'))"

text \<open>The buffers bound in that function body when the literal is evaluated; the script
  declares no \<open>combined_input\<close>.\<close>

definition pqhd_js_scope :: "primitives \<Rightarrow> pqhd_locals \<Rightarrow> (string \<times> bytes) list" where
  "pqhd_js_scope P l =
     [(''kyber_pk'', ql_kyber_pk l), (''kyber_sk'', ql_kyber_sk l),
      (''sharedSecret'', ql_sharedSecret l),
      (''dilithium_pk'', ql_dilithium_pk l), (''dilithium_sk'', ql_dilithium_sk l),
      (''master_entropy'', ql_master_entropy l),
      (''entropyHash'', SHA3_digest P (SHA3_update (new_SHA3 256) (ql_master_entropy l))),
      (''addressBytes'', ql_addressBytes l)]"

definition pqhd_js_generatePQHDWallet :: "primitives \<Rightarrow> entropy \<Rightarrow> (js_error + pqhd_wallet) \<times> entropy" where
  "pqhd_js_generatePQHDWallet P os =
     (case pqhd_js_run P os of
        (Inl e, os') \<Rightarrow> (Inl e, os')
      | (Inr l, os') \<Rightarrow> (pqhd_wallet_literal (pqhd_js_scope P l) (ql_address l), os'))"

subsection \<open>qti3.js, on the helper program\<close>

text \<open>The two bridges.  (\<open>ensureCliBuilt\<close> only locates or builds the program.)\<close>

definition kem_self_from_seed_call :: "primitives \<Rightarrow> entropy \<Rightarrow> cli_result \<times> entropy" where
  "kem_self_from_seed_call P os =
     (case randomBytes 64 os of (seed, os1) \<Rightarrow>
        oqs_wallet_cli P [''kem_self_from_seed'', toString_hex seed] os1)"

definition kem_self_fields :: "cli_result \<Rightarrow> js_error + bytes \<times> bytes \<times> bytes" where
  "kem_self_fields r =
     bind_js (json_field_base64 (stdout r) ''kyber_public_b64'') (\<lambda>kyber_pk.
     bind_js (json_field_base64 (stdout r) ''kyber_private_b64'') (\<lambda>kyber_sk.
     bind_js (json_field_base64 (stdout r) ''shared_b64'') (\<lambda>sharedSecret.
       Inr (kyber_pk, kyber_sk, sharedSecret))))"

definition gen_dilithium_from_seed_call :: "primitives \<Rightarrow> bytes \<Rightarrow> entropy \<Rightarrow> cli_result \<times> entropy" where
  "gen_dilithium_from_seed_call P seed os =
     oqs_wallet_cli P [''gen_dilithium_from_seed'', toString_hex seed] os"

definition dilithium_fields :: "cli_result \<Rightarrow> js_error + bytes \<times> bytes" where
  "dilithium_fields r =
     bind_js (json_field_base64 (stdout r) ''dilithium_public_b64'') (\<lambda>pk.
     bind_js (json_field_base64 (stdout r) ''dilithium_private_b64'') (\<lambda>sk.
       Inr (pk, sk)))"

text \<open>Steps 1 and 2 of \<^verbatim>\<open>qti3.js\<close>; every failure inside their \<open>try\<close> blocks ends in
  \<open>process.exit(1)\<close>.\<close>

definition qti3_kyber_step :: "primitives \<Rightarrow> entropy \<Rightarrow> (js_error + bytes \<times> bytes \<times> bytes) \<times> entropy" where
  "qti3_kyber_step P os =
     (case kem_self_from_seed_call P os of (r1, os') \<Rightarrow>
        if status r1 \<noteq> 0 then (Inl (ProcessExit 1), os')
        else (case kem_self_fields r1 of
                Inl e \<Rightarrow> (Inl (ProcessExit 1), os')
              | Inr k \<Rightarrow> (Inr k, os')))"

definition qti3_dilithium_step :: "primitives \<Rightarrow> bytes \<Rightarrow> entropy \<Rightarrow> (js_error + bytes \<times> bytes) \<times> entropy" where
  "qti3_dilithium_step P sharedSecret os =
     (case gen_dilithium_from_seed_call P (pqhd_dilithium_seed P sharedSecret) os of (res2, os') \<Rightarrow>
        if status res2 \<noteq> 0 then (Inl (ProcessExit 1), os')
        else (case dilithium_fields res2 of
                Inl e \<Rightarrow> (Inl (ProcessExit 1), os')
              | Inr kp \<Rightarrow> (Inr kp, os')))"

text \<open>Step 3 of \<^verbatim>\<open>qti3.js\<close>: \<open>combined_input = Buffer.concat([sharedSecret, dilithium_pk])\<close>,
  then \<open>SHAKE(256)\<close>, \<open>update(combined_input)\<close>, \<open>digest(64)\<close>.\<close>

definition qti3_combined_input :: "bytes \<Rightarrow> bytes \<Rightarrow> bytes" where
  "qti3_combined_input sharedSecret dilithium_pk = sharedSecret @ dilithium_pk"

definition qti3_master_hash :: "bytes \<Rightarrow> bytes \<Rightarrow> SHAKE" where
  "qti3_master_hash sharedSecret dilithium_pk =
     SHAKE_update (new_SHAKE 256) (qti3_combined_input sharedSecret dilithium_pk)"

definition qti3_from_keys :: "primitives \<Rightarrow> bytes \<times> bytes \<times> bytes \<Rightarrow> bytes \<times> bytes \<Rightarrow> js_error + pqhd_locals" where
  "qti3_from_keys P k kp =
     (case k of (kyber_pk, kyber_sk, sharedSecret) \<Rightarrow>
       (case kp of (dilithium_pk, dilithium_sk) \<Rightarrow>
          (case encode_versioned 2
                  (sha3_256_first20 P
                     (SHAKE_digest P (qti3_master_hash sharedSecret dilithium_pk) 64)) of
             Inl e \<Rightarrow> Inl e
           | Inr address \<Rightarrow>
               Inr \<lparr>ql_kyber_pk = kyber_pk, ql_kyber_sk = kyber_sk,
                    ql_sharedSecret = sharedSecret,
                    ql_dilithium_pk = dilithium_pk, ql_dilithium_sk = dilithium_sk,
                    ql_master_entropy =
                      SHAKE_digest P (qti3_master_hash sharedSecret dilithium_pk) 64,
                    ql_addressBytes =
                      sha3_256_first20 P
                        (SHAKE_digest P (qti3_master_hash sharedSecret dilithium_pk) 64),
                    ql_address = address\<rparr>)))"

definition qti3_run :: "primitives \<Rightarrow> entropy \<Rightarrow> (js_error + pqhd_locals) \<times> entropy" where
  "qti3_run P os =
     (case qti3_kyber_step P os of
        (Inl e, os1) \<Rightarrow> (Inl e, os1)
      | (Inr k, os1) \<Rightarrow>
          (case qti3_dilithium_step P (snd (snd k)) os1 of
             (Inl e, os2) \<Rightarrow> (Inl e, os2)
           | (Inr kp, os2) \<Rightarrow> (qti3_from_keys P k kp, os2)))"

definition qti3_scope :: "primitives \<Rightarrow> pqhd_locals \<Rightarrow> (string \<times> bytes) list" where
  "qti3_scope P l =
     [(''kyber_pk'', ql_kyber_pk l), (''kyber_sk'', ql_kyber_sk l),
      (''sharedSecret'', ql_sharedSecret l),
      (''dilithium_pk'', ql_dilithium_pk l), (''dilithium_sk'', ql_dilithium_sk l),
      (''combined_input'', qti3_combined_input (ql_sharedSecret l) (ql_dilithium_pk l)),
      (''master_entropy'', ql_master_entropy l),
      (''entropyHash'', SHA3_digest P (SHA3_update (new_SHA3 256) (ql_master_entropy l))),
      (''addressBytes'', ql_addressBytes l)]"

definition qti3_generatePQHDWallet :: "primitives \<Rightarrow> entropy \<Rightarrow> (js_error + pqhd_wallet) \<times> entropy" where
  "qti3_generatePQHDWallet P os =
     (case qti3_run P os of
        (Inl e, os') \<Rightarrow> (Inl e, os')
      | (Inr l, os') \<Rightarrow> (pqhd_wallet_literal (qti3_scope P l) (ql_address l), os'))"

section \<open>The HD multi-address method: QTCHDNode and QTCPQHDWallet\<close>

text \<open>
  The class text exists twice, once on \<^verbatim>\<open>noble-post-quantum\<close> and once on the helper
  program; the two differ only in how a Dilithium key pair and the key-encapsulation
  material are obtained.  \<open>backend\<close> selects the variant.
\<close>

datatype backend = Noble | Liboqs

record QTCHDNode =
  masterEntropy :: bytes
  path :: QTCHDPath
  chainCode :: "bytes option"
  privateKey :: "bytes option"
  publicKey :: "bytes option"

definition new_QTCHDNode :: "bytes \<Rightarrow> QTCHDPath \<Rightarrow> QTCHDNode" where
  "new_QTCHDNode entropy p =
     \<lparr>masterEntropy = entropy, path = p, chainCode = None, privateKey = None, publicKey = None\<rparr>"

definition childPath :: "QTCHDNode \<Rightarrow> nat \<Rightarrow> QTCHDPath" where
  "childPath node index =
     new_QTCHDPath (purpose (path node)) (account (path node)) (change (path node)) index"

definition derivationData :: "QTCHDNode \<Rightarrow> nat \<Rightarrow> js_error + bytes" where
  "derivationData node index =
     (case writeUInt32BE index of
        Inl e \<Rightarrow> Inl e
      | Inr indexData \<Rightarrow>
          Inr (masterEntropy node @ Buffer_from_string (path_toString (childPath node index))
               @ indexData))"

definition deriveChild :: "primitives \<Rightarrow> QTCHDNode \<Rightarrow> nat \<Rightarrow> js_error + QTCHDNode" where
  "deriveChild P node index =
     (case derivationData node index of
        Inl e \<Rightarrow> Inl e
      | Inr d \<Rightarrow>
          Inr (new_QTCHDNode (SHA3_digest P (SHA3_update (new_SHA3 512) d)) (childPath node index)))"

text \<open>A Dilithium key pair from a seed: \<open>ml_dsa65.keygen(seed)\<close>, or the helper program's
  \<open>gen_dilithium_from_seed\<close>, which throws \<open>Error(stderr || fallback)\<close> on a non-zero status.\<close>

definition dilithium_from_seed :: "backend \<Rightarrow> string \<Rightarrow> primitives \<Rightarrow> bytes \<Rightarrow> entropy
    \<Rightarrow> (js_error + bytes \<times> bytes) \<times> entropy" where
  "dilithium_from_seed b fallback P seed os =
     (case b of
        Noble \<Rightarrow> (Inr (ml_dsa65_keygen P seed), os)
      | Liboqs \<Rightarrow>
          (case gen_dilithium_from_seed_call P seed os of (res, os') \<Rightarrow>
             if status res \<noteq> 0
             then (Inl (Error (if stderr res = [] then fallback else stderr res)), os')
             else (dilithium_fields res, os')))"

definition generateKeyPair :: "backend \<Rightarrow> primitives \<Rightarrow> QTCHDNode \<Rightarrow> entropy
    \<Rightarrow> (js_error + QTCHDNode) \<times> entropy" where
  "generateKeyPair b P node os =
     (case dilithium_from_seed b ''oqs_wallet_cli failed'' P (slice (masterEntropy node) 0 32) os of
        (Inl e, os') \<Rightarrow> (Inl e, os')
      | (Inr (pk, sk), os') \<Rightarrow> (Inr (node\<lparr>privateKey := Some sk, publicKey := Some pk\<rparr>), os'))"

definition generateAddress :: "primitives \<Rightarrow> QTCHDNode \<Rightarrow> js_error + string" where
  "generateAddress P node =
     (case publicKey node of
        None \<Rightarrow> Inl (Error ''Must generate keypair first'')
      | Some pk \<Rightarrow> encode_versioned 2 (sha3_256_first20 P pk))"

record QTCPQHDWallet =
  kyberPublicKey :: "bytes option"
  kyberSecretKey :: "bytes option"
  sharedSecret :: "bytes option"
  wallet_masterEntropy :: "bytes option"
  masterNode :: "QTCHDNode option"

definition new_QTCPQHDWallet :: QTCPQHDWallet where
  "new_QTCPQHDWallet =
     \<lparr>kyberPublicKey = None, kyberSecretKey = None, sharedSecret = None,
      wallet_masterEntropy = None, masterNode = None\<rparr>"

record master_data =
  md_kyber_public_b64 :: string
  md_kyber_private_b64 :: string
  md_dilithium_public_b64 :: string
  md_dilithium_private_b64 :: string
  md_kyber_shared_secret_b64 :: string
  md_master_entropy_b64 :: string
  md_combined_input_b64 :: string

text \<open>Step 1 of \<open>generateMaster\<close> in either variant.\<close>

definition master_kyber_step :: "backend \<Rightarrow> primitives \<Rightarrow> entropy
    \<Rightarrow> (js_error + bytes \<times> bytes \<times> bytes) \<times> entropy" where
  "master_kyber_step b P os =
     (case b of
        Noble \<Rightarrow> (case noble_kyber_step P os of (k, os') \<Rightarrow> (Inr k, os'))
      | Liboqs \<Rightarrow>
          (case kem_self_from_seed_call P os of (r1, os') \<Rightarrow>
             if status r1 \<noteq> 0
             then (Inl (Error (if stderr r1 = [] then ''kem_self failed'' else stderr r1)), os')
             else (kem_self_fields r1, os')))"

text \<open>Step 3: \<open>combinedInput = Buffer.concat([this.sharedSecret, dilithiumPublicKey])\<close>, then
  \<open>SHA3(512)\<close>, \<open>update(combinedInput)\<close>, \<open>digest()\<close>.\<close>

definition hd_master_entropy :: "primitives \<Rightarrow> bytes \<Rightarrow> bytes \<Rightarrow> bytes" where
  "hd_master_entropy P ss dilithiumPublicKey =
     SHA3_digest P (SHA3_update (new_SHA3 512) (ss @ dilithiumPublicKey))"

definition generateMaster :: "backend \<Rightarrow> primitives \<Rightarrow> entropy
    \<Rightarrow> (js_error + QTCPQHDWallet \<times> master_data) \<times> entropy" where
  "generateMaster b P os =
     (case master_kyber_step b P os of
        (Inl e, os1) \<Rightarrow> (Inl e, os1)
      | (Inr (kpk, ksk, ss), os1) \<Rightarrow>
     (case dilithium_from_seed b ''oqs_wallet_cli failed for Dilithium'' P
             (pqhd_dilithium_seed P ss) os1 of
        (Inl e, os2) \<Rightarrow> (Inl e, os2)
      | (Inr (dpk, dsk), os2) \<Rightarrow>
     (case generateKeyPair b P
             (new_QTCHDNode (hd_master_entropy P ss dpk) default_QTCHDPath) os2 of
        (Inl e, os3) \<Rightarrow> (Inl e, os3)
      | (Inr node, os3) \<Rightarrow>
          (Inr (\<lparr>kyberPublicKey = Some kpk, kyberSecretKey = Some ksk, sharedSecret = Some ss,
                 wallet_masterEntropy = Some (hd_master_entropy P ss dpk),
                 masterNode = Some node\<rparr>,
                \<lparr>md_kyber_public_b64 = toString_base64 kpk,
                 md_kyber_private_b64 = toString_base64 ksk,
                 md_dilithium_public_b64 = toString_base64 dpk,
                 md_dilithium_private_b64 = toString_base64 dsk,
                 md_kyber_shared_secret_b64 = toString_base64 ss,
                 md_master_entropy_b64 = toString_base64 (hd_master_entropy P ss dpk),
                 md_combined_input_b64 = toString_base64 (ss @ dpk)\<rparr>), os3))))"

record address_entry =
  ae_index :: nat
  ae_path :: string
  ae_address :: string
  ae_dilithium_public_b64 :: string
  ae_dilithium_private_b64 :: string

text \<open>One round of the loop of \<open>generateAddresses\<close>; an exception ends the loop.\<close>

definition address_entry_of :: "nat \<Rightarrow> QTCHDNode \<Rightarrow> string \<Rightarrow> js_error + address_entry" where
  "address_entry_of i childNode address =
     (case (publicKey childNode, privateKey childNode) of
        (Some pk, Some sk) \<Rightarrow>
          Inr \<lparr>ae_index = i, ae_path = path_toString (path childNode), ae_address = address,
               ae_dilithium_public_b64 = toString_base64 pk,
               ae_dilithium_private_b64 = toString_base64 sk\<rparr>
      | _ \<Rightarrow> Inl (TypeError ''The first argument must be of type string or a buffer''))"

definition generateAddresses_round :: "backend \<Rightarrow> primitives \<Rightarrow> QTCHDNode
    \<Rightarrow> (js_error + address_entry list) \<times> entropy \<Rightarrow> nat
    \<Rightarrow> (js_error + address_entry list) \<times> entropy" where
  "generateAddresses_round b P master st i =
     (case st of
        (Inl e, os) \<Rightarrow> (Inl e, os)
      | (Inr addresses, os) \<Rightarrow>
     (case deriveChild P master i of
        Inl e \<Rightarrow> (Inl e, os)
      | Inr childNode0 \<Rightarrow>
     (case generateKeyPair b P childNode0 os of
        (Inl e, os1) \<Rightarrow> (Inl e, os1)
      | (Inr childNode, os1) \<Rightarrow>
     (case generateAddress P childNode of
        Inl e \<Rightarrow> (Inl e, os1)
      | Inr address \<Rightarrow>
     (case address_entry_of i childNode address of
        Inl e \<Rightarrow> (Inl e, os1)
      | Inr entry \<Rightarrow> (Inr (addresses @ [entry]), os1))))))"

definition generateAddresses :: "backend \<Rightarrow> primitives \<Rightarrow> QTCPQHDWallet \<Rightarrow> nat \<Rightarrow> nat \<Rightarrow> nat
    \<Rightarrow> entropy \<Rightarrow> (js_error + address_entry list) \<times> entropy" where
  "generateAddresses b P w count account_arg change_arg os =
     (case masterNode w of
        None \<Rightarrow> (Inl (Error ''Must generate master wallet first''), os)
      | Some master \<Rightarrow> foldl (generateAddresses_round b P master) (Inr [], os) [0..<count])"

record hd_wallet_export =
  hx_wallet_type :: string
  hx_witness_version :: nat
  hx_kyber_public_b64 :: string
  hx_kyber_private_b64 :: string
  hx_kyber_shared_secret_b64 :: string
  hx_master_entropy_b64 :: string
  hx_addresses :: "address_entry list"
  hx_total_addresses :: nat

definition exportWallet :: "QTCPQHDWallet \<Rightarrow> address_entry list \<Rightarrow> js_error + hd_wallet_export" where
  "exportWallet w addresses =
     (case (kyberPublicKey w, kyberSecretKey w, sharedSecret w, wallet_masterEntropy w) of
        (Some kpk, Some ksk, Some ss, Some me) \<Rightarrow>
          Inr \<lparr>hx_wallet_type = ''QTC-PQHD-HD'', hx_witness_version = 2,
               hx_kyber_public_b64 = toString_base64 kpk,
               hx_kyber_private_b64 = toString_base64 ksk,
               hx_kyber_shared_secret_b64 = toString_base64 ss,
               hx_master_entropy_b64 = toString_base64 me,
               hx_addresses = addresses, hx_total_addresses = length addresses\<rparr>
      | _ \<Rightarrow> Inl (TypeError ''Cannot read properties of null''))"

text \<open>\<open>main\<close> after argument parsing (\<open>parseInt(arg) || default\<close> has been applied): any
  exception ends in \<open>process.exit(1)\<close>.\<close>

definition hd_main :: "backend \<Rightarrow> primitives \<Rightarrow> nat \<Rightarrow> nat \<Rightarrow> nat \<Rightarrow> entropy
    \<Rightarrow> (js_error + hd_wallet_export) \<times> entropy" where
  "hd_main b P count account_arg change_arg os =
     (case generateMaster b P os of
        (Inl e, os1) \<Rightarrow> (Inl (ProcessExit 1), os1)
      | (Inr (w, masterData), os1) \<Rightarrow>
     (case generateAddresses b P w count account_arg change_arg os1 of
        (Inl e, os2) \<Rightarrow> (Inl (ProcessExit 1), os2)
      | (Inr addresses, os2) \<Rightarrow>
     (case exportWallet w addresses of
        Inl e \<Rightarrow> (Inl (ProcessExit 1), os2)
      | Inr walletData \<Rightarrow> (Inr walletData, os2))))"

section \<open>Stand-in primitives for running the scripts\<close>

text \<open>
  To run a script on concrete bytes the record of primitives needs a value.  The stand-ins
  below are not the real algorithms: a digest is its input cut or zero-padded to the
  digest length, a key pair is its seed behind a tag byte, and the shared secret of an
  encapsulation is the encapsulated message.  They keep the flow of data visible; they are
  used only in the concrete runs that accompany the general statements.
\<close>

definition pad_to :: "nat \<Rightarrow> bytes \<Rightarrow> bytes" where
  "pad_to n data = take n (data @ replicate n 0)"

definition demo_primitives :: primitives where
  "demo_primitives =
     \<lparr>sha3_digest = (\<lambda>sz data. pad_to (sz div 8) data),
      shake_digest = (\<lambda>sz data n. pad_to n data),
      ml_kem1024_keygen = (\<lambda>seed. (0xA1 # seed, 0xA2 # seed)),
      ml_kem1024_encaps = (\<lambda>pk msg. (0xC1 # msg, msg)),
      ml_kem1024_decapsulate = (\<lambda>ct sk. tl ct),
      ml_dsa65_keygen = (\<lambda>seed. (0xD1 # seed, 0xD2 # seed)),
      oqs_shake256 = (\<lambda>data n. pad_to n data),
      nist_kat_init = (\<lambda>seed48. seed48),
      nist_kat_generate = (\<lambda>ctx n. (pad_to n ctx, rev ctx)),
      oqs_kem_enabled = True,
      oqs_sig_enabled = True,
      oqs_kem_keypair = (\<lambda>coins. Some (0xA1 # coins, 0xA2 # coins)),
      oqs_kem_encaps = (\<lambda>pk coins. Some (0xC1 # coins, coins)),
      oqs_sig_keypair = (\<lambda>coins. Some (0xD1 # coins, 0xD2 # coins))\<rparr>"

text \<open>Two streams of operating-system bytes that agree on their first 64 bytes.\<close>

definition os_zero :: entropy where
  "os_zero = (\<lambda>i. 0)"

definition os_late :: entropy where
  "os_late = (\<lambda>i. if i = 64 then 1 else 0)"

text \<open>A third stream, which agrees with the first on its first 96 bytes.\<close>

definition os_later :: entropy where
  "os_later = (\<lambda>i. if i = 96 then 1 else 0)"






text \<open>
  The helper program can fail only where liboqs does.  \<open>providers_succeed\<close> says of a record of
  primitives that both algorithms are available and that no liboqs operation fails; it is a
  hypothesis of statements that a run on the helper program returns a wallet.
\<close>

definition providers_succeed :: "primitives \<Rightarrow> bool" where
  "providers_succeed P \<longleftrightarrow>
     oqs_kem_enabled P \<and> oqs_sig_enabled P \<and>
     (\<forall>coins. oqs_kem_keypair P coins \<noteq> None) \<and>
     (\<forall>pk coins. oqs_kem_encaps P pk coins \<noteq> None) \<and>
     (\<forall>coins. oqs_sig_keypair P coins \<noteq> None)"


section \<open>Reading an address back\<close>


section \<open>Notions for reasoning about the codec\<close>

text \<open>
  The bits of a 32-bit value from position \<open>n - 1\<close> down to 0, the value of a bit string (most
  significant bit first), and a bit string cut into pieces of \<open>b\<close> bits with what is left over.
  \<open>byte_bits\<close> is the bit string of a buffer and \<open>words_of\<close> its 5-bit groups, the last one
  padded with zeros.
\<close>

definition bits_be :: "nat \<Rightarrow> int32 \<Rightarrow> bool list" where
  "bits_be n x = rev (map (bit x) [0..<n])"

definition val_be :: "bool list \<Rightarrow> int32" where
  "val_be bs = horner_sum of_bool 2 (rev bs)"

function chop :: "nat \<Rightarrow> bool list \<Rightarrow> bool list list \<times> bool list" where
  "chop b q =
     (if 0 < b \<and> b \<le> length q
      then (case chop b (drop b q) of (cs, r) \<Rightarrow> (take b q # cs, r))
      else ([], q))"
  by pat_completeness auto
termination
  by (relation "measure (\<lambda>(b, q). length q)") auto

declare chop.simps [simp del]

definition byte_bits :: "bytes \<Rightarrow> bool list" where
  "byte_bits bs = concat (map (bits_be 8) (map ucast bs))"

definition words_of :: "bool list \<Rightarrow> int32 list" where
  "words_of S =
     map val_be (fst (chop 5 S)) @
     (if snd (chop 5 S) = [] then []
      else [val_be (snd (chop 5 S) @ replicate (5 - length (snd (chop 5 S))) False)])"

text \<open>The checksum state after a list of data values, the six values of a checksum, and the
  character of a 5-bit value.\<close>

definition polymod_fold :: "int32 \<Rightarrow> int32 list \<Rightarrow> int32" where
  "polymod_fold s vs = foldl (\<lambda>s v. polymodStep s XOR v) s vs"

definition checksum_words :: "int32 \<Rightarrow> int32 list" where
  "checksum_words chk = map (\<lambda>i. js_sar chk ((5 - i) * 5) AND 0x1f) [0..<6]"

definition alphabet_char :: "int32 \<Rightarrow> char" where
  "alphabet_char w = ALPHABET ! unat w"

section \<open>Properties\<close>

subsection \<open>Path parsing\<close>

lemma number_toString_small: "n < 10 \<Longrightarrow> number_toString n = [digit_char n]"
  by (simp add: number_toString.simps)

lemma fromString_default_path:
  "fromString ''m/44'/0'/0/7'' = Inr (new_QTCHDPath 44 0 0 7)"
  by code_simp

text \<open>
  Claim C8.  The path text \<open>m/44/0/0/0\<close>, which has no hardened markers, and the path text
  \<open>m/44'/0'/0/-1\<close>, whose address index is negative, are both refused by \<open>fromString\<close>
  with the format error \<open>Invalid HD path format\<close>; neither yields a path value.
\<close>

theorem fromString_rejects_malformed:
  "fromString ''m/44/0/0/0'' = Inl (Error ''Invalid HD path format'') \<and>
   fromString ''m/44'/0'/0/-1'' = Inl (Error ''Invalid HD path format'') \<and>
   (\<nexists>p. fromString ''m/44/0/0/0'' = Inr p) \<and>
   (\<nexists>p. fromString ''m/44'/0'/0/-1'' = Inr p)"
proof -
  have a: "fromString ''m/44/0/0/0'' = Inl (Error ''Invalid HD path format'')"
    by code_simp
  have b: "fromString ''m/44'/0'/0/-1'' = Inl (Error ''Invalid HD path format'')"
    by code_simp
  show ?thesis
    by (simp add: a b)
qed


subsection \<open>Bit strings\<close>

lemma length_bits_be [simp]: "length (bits_be n x) = n"
  by (simp add: bits_be_def)

lemma bit_val_be: "bit (val_be bs) i \<longleftrightarrow> i < length bs \<and> i < 32 \<and> rev bs ! i"
  by (auto simp add: val_be_def bit_horner_sum_bit_word_iff)



lemma bits_be_nth: "i < n \<Longrightarrow> bits_be n x ! i = bit x (n - Suc i)"
  by (simp add: bits_be_def rev_nth)

lemma bits_be_append:
  assumes "bits + a \<le> 32" and "a < 32" and "take_bit a d = d"
  shows "bits_be (bits + a) (js_shl value a OR d) = bits_be bits value @ bits_be a d"
proof (rule nth_equalityI)
  show "length (bits_be (bits + a) (js_shl value a OR d)) = length (bits_be bits value @ bits_be a d)"
    by simp
next
  fix i assume "i < length (bits_be (bits + a) (js_shl value a OR d))"
  then have i: "i < bits + a" by simp
  have a32: "a mod 32 = a" using assms(2) by simp
  have dbit: "\<And>k. a \<le> k \<Longrightarrow> \<not> bit d k"
    using assms(3) by (metis bit_take_bit_iff not_le)
  show "bits_be (bits + a) (js_shl value a OR d) ! i = (bits_be bits value @ bits_be a d) ! i"
  proof (cases "i < bits")
    case True
    then have "bits + a - Suc i \<ge> a" by simp
    with True i assms(1) show ?thesis
      by (auto simp add: bits_be_nth nth_append bit_or_iff js_shl_def bit_push_bit_iff dbit a32)
  next
    case False
    then have e: "bits + a - Suc i = a - Suc (i - bits)" and l: "a - Suc (i - bits) < a"
      using i by simp_all
    from False i l show ?thesis
      by (simp add: bits_be_nth nth_append bit_or_iff js_shl_def bit_push_bit_iff a32 e)
  qed
qed

lemma emit_bits:
  assumes "b \<le> n" "n \<le> 32"
  shows "js_sar value (n - b) AND mask b = val_be (take b (bits_be n value))"
proof (rule bit_word_eqI)
  fix j assume "j < LENGTH(32)"
  then have j: "j < 32" by simp
  show "bit (js_sar value (n - b) AND mask b) j = bit (val_be (take b (bits_be n value))) j"
  proof (cases "j < b")
    case True
    with assms have "n - b + j < 32" by simp
    with True assms j show ?thesis
      by (auto simp add: bit_val_be js_sar_def bit_and_iff bit_mask_iff bit_signed_drop_bit_iff
            rev_nth bits_be_nth min_def)
  next
    case False
    then show ?thesis
      by (auto simp add: bit_val_be bit_and_iff bit_mask_iff)
  qed
qed

lemma drop_bits_be: "b \<le> n \<Longrightarrow> drop b (bits_be n value) = bits_be (n - b) value"
  by (rule nth_equalityI) (auto simp add: bits_be_nth)

lemma chop_less: "\<not> (0 < b \<and> b \<le> length q) \<Longrightarrow> chop b q = ([], q)"
  by (subst chop.simps) auto

lemma chop_step:
  "0 < b \<Longrightarrow> b \<le> length q \<Longrightarrow>
   chop b q = (take b q # fst (chop b (drop b q)), snd (chop b (drop b q)))"
  by (subst chop.simps) (simp add: split_beta)


lemma chop_chunk_length: "c \<in> set (fst (chop b q)) \<Longrightarrow> length c = b"
proof (induction b q rule: chop.induct)
  case (1 b q)
  show ?case
  proof (cases "0 < b \<and> b \<le> length q")
    case True
    with 1 show ?thesis by (auto simp add: chop_step)
  next
    case False
    with 1 show ?thesis by (simp add: chop_less)
  qed
qed

lemma chop_counts:
  "0 < b \<Longrightarrow> length (fst (chop b q)) = length q div b \<and> length (snd (chop b q)) = length q mod b"
proof (induction b q rule: chop.induct)
  case (1 b q)
  show ?case
  proof (cases "b \<le> length q")
    case True
    with 1 show ?thesis
      by (simp add: chop_step le_div_geq le_mod_geq)
  next
    case False
    then show ?thesis by (simp add: chop_less)
  qed
qed

lemma chop_append:
  "chop b (xs @ ys) =
     (fst (chop b xs) @ fst (chop b (snd (chop b xs) @ ys)), snd (chop b (snd (chop b xs) @ ys)))"
proof (induction b xs rule: chop.induct)
  case (1 b xs)
  show ?case
  proof (cases "0 < b \<and> b \<le> length xs")
    case True
    then have "chop b (xs @ ys) =
        (take b xs # fst (chop b (drop b xs @ ys)), snd (chop b (drop b xs @ ys)))"
      by (simp add: chop_step)
    with True 1 show ?thesis by (simp add: chop_step)
  next
    case False
    then show ?thesis by (simp add: chop_less)
  qed
qed


lemma chop_bits_be_rem:
  "0 < b \<Longrightarrow> snd (chop b (bits_be n value)) = bits_be (n mod b) value"
proof (induction b "bits_be n value" arbitrary: n rule: chop.induct)
  case (1 b n)
  show ?case
  proof (cases "b \<le> n")
    case True
    with 1 show ?thesis
      by (simp add: chop_step drop_bits_be le_mod_geq)
  next
    case False
    then show ?thesis by (simp add: chop_less)
  qed
qed

lemma emit_spec:
  "0 < b \<Longrightarrow> n \<le> 32 \<Longrightarrow>
   convert_emit value n b (mask b) res =
     (n mod b, res @ map val_be (fst (chop b (bits_be n value))))"
proof (induction "value" n b "mask b :: int32" res rule: convert_emit.induct)
  case (1 "value" n b res)
  show ?case
  proof (cases "b \<le> n")
    case True
    with 1 show ?thesis
      by (subst convert_emit.simps)
         (simp add: chop_step drop_bits_be le_mod_geq emit_bits)
  next
    case False
    with 1 show ?thesis
      by (subst convert_emit.simps) (simp add: chop_less)
  qed
qed

subsection \<open>The conversion between 8-bit and 5-bit groups\<close>

lemma convert_step_spec:
  assumes "0 < b" "a < 32" "a + b \<le> 33" "take_bit a d = d" "bits < b"
  shows "convert_step a b (mask b) (value, bits, res) d =
           (js_shl value a OR d, (bits + a) mod b,
            res @ map val_be (fst (chop b (bits_be bits value @ bits_be a d))))"
proof -
  from assms have le: "bits + a \<le> 32" by simp
  show ?thesis
    using assms le
    by (simp add: convert_step_def emit_spec bits_be_append)
qed

lemma convert_foldl:
  assumes "0 < b" "a < 32" "a + b \<le> 33"
  shows "\<forall>d\<in>set data. take_bit a d = d \<Longrightarrow> bits < b \<Longrightarrow>
    \<exists>value'. foldl (convert_step a b (mask b)) (value, bits, res) data =
        (value', length (snd (chop b (bits_be bits value @ concat (map (bits_be a) data)))),
         res @ map val_be (fst (chop b (bits_be bits value @ concat (map (bits_be a) data))))) \<and>
      bits_be (length (snd (chop b (bits_be bits value @ concat (map (bits_be a) data))))) value' =
        snd (chop b (bits_be bits value @ concat (map (bits_be a) data)))"
proof (induction data arbitrary: "value" bits res)
  case Nil
  then show ?case by (simp add: chop_less)
next
  case (Cons d ds)
  define q1 where "q1 = bits_be bits value @ bits_be a d"
  define value1 where "value1 = js_shl value a OR d"
  define S where "S = concat (map (bits_be a) ds)"
  from Cons.prems assms have le: "bits + a \<le> 32" by simp
  have q1: "bits_be (bits + a) value1 = q1"
    using Cons.prems assms le by (simp add: q1_def value1_def bits_be_append)
  have rem: "snd (chop b q1) = bits_be ((bits + a) mod b) value1"
    using assms(1) chop_bits_be_rem [of b "bits + a" value1] by (simp add: q1)
  have step: "convert_step a b (mask b) (value, bits, res) d =
      (value1, (bits + a) mod b, res @ map val_be (fst (chop b q1)))"
    using Cons.prems assms by (simp add: convert_step_spec q1_def value1_def)
  have lt: "(bits + a) mod b < b" using assms(1) by simp
  from Cons.IH [of "(bits + a) mod b" value1 "res @ map val_be (fst (chop b q1))"] Cons.prems lt
  obtain v' where
    f: "foldl (convert_step a b (mask b))
          (value1, (bits + a) mod b, res @ map val_be (fst (chop b q1))) ds =
        (v', length (snd (chop b (bits_be ((bits + a) mod b) value1 @ S))),
         (res @ map val_be (fst (chop b q1))) @
           map val_be (fst (chop b (bits_be ((bits + a) mod b) value1 @ S))))"
    and r: "bits_be (length (snd (chop b (bits_be ((bits + a) mod b) value1 @ S)))) v' =
        snd (chop b (bits_be ((bits + a) mod b) value1 @ S))"
    by (auto simp add: S_def)
  have app: "chop b (q1 @ S) =
      (fst (chop b q1) @ fst (chop b (snd (chop b q1) @ S)), snd (chop b (snd (chop b q1) @ S)))"
    by (rule chop_append)
  have whole: "bits_be bits value @ concat (map (bits_be a) (d # ds)) = q1 @ S"
    by (simp add: q1_def S_def)
  show ?case
    unfolding whole
    apply (rule exI [of _ v'])
    apply (simp only: foldl_Cons step f app fst_conv snd_conv rem r)
    apply simp
    done
qed

lemma bits_be_zero [simp]: "bits_be 0 x = []"
  by (simp add: bits_be_def)

lemma convert_loop_spec:
  assumes "0 < b" "a < 32" "a + b \<le> 33" "\<forall>d\<in>set data. take_bit a d = d"
  shows "\<exists>value'. convert_loop data a b (mask b) =
        (value', length (snd (chop b (concat (map (bits_be a) data)))),
         map val_be (fst (chop b (concat (map (bits_be a) data))))) \<and>
      bits_be (length (snd (chop b (concat (map (bits_be a) data))))) value' =
        snd (chop b (concat (map (bits_be a) data)))"
  using convert_foldl [OF assms(1,2,3), of data 0 0 "[]"] assms(4) assms(1)
  by (simp add: convert_loop_def)

lemma pad_bits:
  assumes "n \<le> b" "b < 32"
  shows "js_shl value (b - n) AND mask b = val_be (bits_be n value @ replicate (b - n) False)"
proof (rule bit_word_eqI)
  fix j assume "j < LENGTH(32)"
  then have j: "j < 32" by simp
  have m: "(b - n) mod 32 = b - n" using assms by simp
  show "bit (js_shl value (b - n) AND mask b) j =
        bit (val_be (bits_be n value @ replicate (b - n) False)) j"
  proof (cases "j < b - n")
    case True
    with assms j m show ?thesis
      by (auto simp add: bit_val_be js_shl_def bit_and_iff bit_mask_iff bit_push_bit_iff nth_append)
  next
    case False
    with assms j m show ?thesis
      by (auto simp add: bit_val_be js_shl_def bit_and_iff bit_mask_iff bit_push_bit_iff nth_append
            bits_be_def)
  qed
qed

lemma mask5: "js_shl 1 5 - 1 = (mask 5 :: int32)"
  by (simp add: js_shl_def mask_eq_exp_minus_1)


lemma take_bit_ucast_byte: "take_bit 8 (ucast (x :: byte) :: int32) = ucast x"
  by (rule bit_word_eqI) (auto simp add: bit_take_bit_iff bit_ucast_iff dest: bit_imp_le_length)

lemma toWords_spec: "toWords bs = Inr (words_of (byte_bits bs))"
proof -
  have d: "\<forall>d\<in>set (map ucast bs :: int32 list). take_bit 8 d = d"
    by (auto simp add: take_bit_ucast_byte)
  from convert_loop_spec [of 5 8 "map ucast bs", OF _ _ _ d]
  obtain v where
    l: "convert_loop (map ucast bs) 8 5 (mask 5) =
          (v, length (snd (chop 5 (byte_bits bs))), map val_be (fst (chop 5 (byte_bits bs))))"
    and r: "bits_be (length (snd (chop 5 (byte_bits bs)))) v = snd (chop 5 (byte_bits bs))"
    by (auto simp add: byte_bits_def)
  have n: "length (snd (chop 5 (byte_bits bs))) \<le> 5"
    using chop_counts [of 5 "byte_bits bs"] by simp
  show ?thesis
    using pad_bits [of "length (snd (chop 5 (byte_bits bs)))" 5 v] n
    by (simp add: toWords_def convert_def mask5 l words_of_def r)
qed

lemma val_be_small: "length c \<le> n \<Longrightarrow> take_bit n (val_be c) = val_be c"
  by (rule bit_word_eqI) (auto simp add: bit_take_bit_iff bit_val_be)


lemma length_byte_bits: "length (byte_bits bs) = 8 * length bs"
  by (induction bs) (simp_all add: byte_bits_def)

lemma words_of_small: "w \<in> set (words_of S) \<Longrightarrow> take_bit 5 w = w"
proof -
  assume w: "w \<in> set (words_of S)"
  have r: "length (snd (chop 5 S)) \<le> 5"
    using chop_counts [of 5 S] by simp
  from w show ?thesis
    by (auto simp add: words_of_def val_be_small chop_chunk_length r split: if_splits)
qed

lemma length_words_of:
  "length (words_of S) = length S div 5 + (if length S mod 5 = 0 then 0 else 1)"
proof -
  have "length (snd (chop 5 S)) = length S mod 5" "length (fst (chop 5 S)) = length S div 5"
    using chop_counts [of 5 S] by simp_all
  moreover from this have "snd (chop 5 S) = [] \<longleftrightarrow> length S mod 5 = 0"
    by (metis length_0_conv)
  ultimately show ?thesis
    by (simp add: words_of_def)
qed



subsection \<open>The checksum\<close>















subsection \<open>Encoding and decoding an address\<close>

lemma small_unat: "take_bit 5 (w :: int32) = w \<Longrightarrow> unat w < 32"
proof -
  assume w: "take_bit 5 w = w"
  have "unat w = take_bit 5 (unat w)"
    using w by (metis unsigned_take_bit_eq)
  also have "\<dots> < 2 ^ 5"
    by (rule take_bit_nat_less_exp)
  finally show ?thesis by simp
qed

lemma length_ALPHABET: "length ALPHABET = 32"
  by (simp add: ALPHABET_def)


lemma charAt_alphabet: "take_bit 5 w = w \<Longrightarrow> charAt ALPHABET (unat w) = [alphabet_char w]"
  by (simp add: charAt_def alphabet_char_def length_ALPHABET small_unat)


lemma js_sar_small: "take_bit 5 w = w \<Longrightarrow> js_sar w 5 = 0"
proof -
  assume w: "take_bit 5 w = w"
  have b: "\<And>k. bit w k \<Longrightarrow> k < 5"
    using w by (metis bit_take_bit_iff)
  show ?thesis
    by (rule bit_word_eqI) (auto simp add: js_sar_def bit_signed_drop_bit_iff dest: b)
qed

lemma polymod_fold_Nil [simp]: "polymod_fold s [] = s"
  by (simp add: polymod_fold_def)

lemma polymod_fold_Cons [simp]: "polymod_fold s (v # vs) = polymod_fold (polymodStep s XOR v) vs"
  by (simp add: polymod_fold_def)


lemma encode_words_spec:
  "\<forall>w\<in>set ws. take_bit 5 w = w \<Longrightarrow>
   encode_words ws chk res = Inr (polymod_fold chk ws, res @ map alphabet_char ws)"
  by (induction ws arbitrary: chk res) (simp_all add: js_sar_small charAt_alphabet)



lemma length_checksum_words [simp]: "length (checksum_words chk) = 6"
  by (simp add: checksum_words_def)

lemma encode_checksum_spec: "encode_checksum chk = map alphabet_char (checksum_words chk)"
proof -
  have "\<And>i. charAt ALPHABET (unat (js_sar chk ((5 - i) * 5) AND 0x1f)) =
            [alphabet_char (js_sar chk ((5 - i) * 5) AND 0x1f)]"
  proof -
    fix i
    have m: "(0x1f :: int32) = mask 5" by (simp add: mask_eq_exp_minus_1)
    show "charAt ALPHABET (unat (js_sar chk ((5 - i) * 5) AND 0x1f)) =
            [alphabet_char (js_sar chk ((5 - i) * 5) AND 0x1f)]"
      by (rule charAt_alphabet) (simp add: m take_bit_eq_mask and.assoc)
  qed
  then show ?thesis
    by (simp add: encode_checksum_def checksum_words_def upt_rec)
qed

lemma prefixChk_qtc: "prefixChk ''qtc'' = Inr 81622586"
  by code_simp

lemma toLowerCase_qtc: "toLowerCase ''qtc'' = ''qtc''"
  by code_simp



lemma encode_spec:
  assumes "\<forall>w\<in>set ws. take_bit 5 w = w" "length ws \<le> 80"
  shows "encode enc ''qtc'' ws =
     Inr (''qtc1'' @ map alphabet_char ws @
          map alphabet_char
            (checksum_words (polymod_six (polymod_fold 81622586 ws) XOR ENCODING_CONST enc)))"
  using assms
  by (simp add: encode_def toLowerCase_qtc prefixChk_qtc encode_words_spec encode_checksum_spec)














lemma length_words_20: "length p \<le> 20 \<Longrightarrow> length (words_of (byte_bits p)) \<le> 32"
  by (simp add: length_words_of length_byte_bits) presburger

lemma encode_versioned_spec:
  assumes "take_bit 5 v = v" "length p \<le> 20"
  shows "encode_versioned v p =
     Inr (''qtc1'' @ map alphabet_char (v # words_of (byte_bits p)) @
          map alphabet_char
            (checksum_words
               (polymod_six (polymod_fold 81622586 (v # words_of (byte_bits p))) XOR 1)))"
proof -
  have small: "\<forall>w\<in>set (v # words_of (byte_bits p)). take_bit 5 w = w"
    using assms(1) by (auto simp add: words_of_small)
  have len: "length (v # words_of (byte_bits p)) \<le> 80"
    using length_words_20 [OF assms(2)] by simp
  show ?thesis
    using encode_spec [OF small len, of Bech32]
    by (simp add: encode_versioned_def toWords_spec ENCODING_CONST_def)
qed

lemma encode_plain_spec:
  assumes "length p \<le> 20"
  shows "encode_plain p =
     Inr (''qtc1'' @ map alphabet_char (words_of (byte_bits p)) @
          map alphabet_char
            (checksum_words (polymod_six (polymod_fold 81622586 (words_of (byte_bits p))) XOR 1)))"
proof -
  have small: "\<forall>w\<in>set (words_of (byte_bits p)). take_bit 5 w = w"
    by (auto simp add: words_of_small)
  have len: "length (words_of (byte_bits p)) \<le> 80"
    using length_words_20 [OF assms] by simp
  show ?thesis
    using encode_spec [OF small len, of Bech32]
    by (simp add: encode_plain_def toWords_spec ENCODING_CONST_def)
qed





subsection \<open>The scripts: what a successful run computes\<close>

lemma length_first20: "length (sha3_256_first20 P d) \<le> 20"
  by (simp add: sha3_256_first20_def slice_def)

lemma first20_eq: "sha3_256_first20 P d = take 20 (sha3_digest P 256 d)"
  by (simp add: sha3_256_first20_def slice_def SHA3_digest_def SHA3_update_def new_SHA3_def)

lemma encode_versioned_ok:
  "take_bit 5 v = v \<Longrightarrow> length p \<le> 20 \<Longrightarrow> \<exists>t. encode_versioned v p = Inr t"
  by (simp add: encode_versioned_spec)

lemma encode_plain_ok: "length p \<le> 20 \<Longrightarrow> \<exists>t. encode_plain p = Inr t"
  by (simp add: encode_plain_spec)

lemma one_small: "take_bit 5 (1 :: int32) = 1" and two_small: "take_bit 5 (2 :: int32) = 2"
  by simp_all

lemma qti2_from_kem_ok: "\<exists>l. qti2_from_kem P k = Inr l"
proof -
  obtain kpk ksk ss where k: "k = (kpk, ksk, ss)" by (cases k) auto
  obtain dpk dsk where d: "ml_dsa65_keygen P (slice (createHash_sha3_512 P ss) 0 32) = (dpk, dsk)"
    by (cases "ml_dsa65_keygen P (slice (createHash_sha3_512 P ss) 0 32)") auto
  from encode_plain_ok [OF length_first20, of P dpk]
  obtain t where "encode_plain (sha3_256_first20 P dpk) = Inr t" by blast
  then show ?thesis by (simp add: qti2_from_kem_def k d)
qed

lemma qti2_run_ok: "\<exists>l. fst (qti2_run P os) = Inr l"
  using qti2_from_kem_ok [of P "fst (noble_kyber_step P os)"]
  by (simp add: qti2_run_def split_beta)

lemma qti2_entropy:
  "fst (qti2_run P os) = Inr l \<Longrightarrow> pl_entropy l = sha3_digest P 512 (pl_sharedSecret l)"
  by (auto simp add: qti2_run_def qti2_from_kem_def createHash_sha3_512_def split_beta
        split: sum.splits)


lemma qtc2_from_kem_ok: "\<exists>l. qtc2_from_kem P k = Inr l"
proof -
  obtain kpk ksk ss where k: "k = (kpk, ksk, ss)" by (cases k) auto
  obtain dpk dsk where d: "ml_dsa65_keygen P (slice (qtc2_entropy P ss) 0 32) = (dpk, dsk)"
    by (cases "ml_dsa65_keygen P (slice (qtc2_entropy P ss) 0 32)") auto
  from encode_versioned_ok [OF one_small length_first20, of P dpk]
  obtain t where "encode_versioned 1 (sha3_256_first20 P dpk) = Inr t" by blast
  then show ?thesis by (simp add: qtc2_from_kem_def k d)
qed

lemma qtc2_run_ok: "\<exists>l. fst (qtc2_run P os) = Inr l"
  using qtc2_from_kem_ok [of P "fst (noble_kyber_step P os)"]
  by (simp add: qtc2_run_def split_beta)

lemma pqhd_js_from_kem_ok: "\<exists>l. pqhd_js_from_kem P k = Inr l"
proof -
  obtain kpk ksk ss where k: "k = (kpk, ksk, ss)" by (cases k) auto
  obtain dpk dsk where d: "ml_dsa65_keygen P (pqhd_dilithium_seed P ss) = (dpk, dsk)"
    by (cases "ml_dsa65_keygen P (pqhd_dilithium_seed P ss)") auto
  from encode_versioned_ok [OF two_small length_first20]
  obtain t where "encode_versioned 2
      (sha3_256_first20 P (SHAKE_digest P (pqhd_js_master_hash ss dpk) 64)) = Inr t" by blast
  then show ?thesis by (simp add: pqhd_js_from_kem_def k d)
qed

lemma pqhd_js_run_ok: "\<exists>l. fst (pqhd_js_run P os) = Inr l"
  using pqhd_js_from_kem_ok [of P "fst (noble_kyber_step P os)"]
  by (simp add: pqhd_js_run_def split_beta)

lemma qti2_run_facts:
  assumes "fst (qti2_run P os) = Inr l"
  shows "pl_entropy l = sha3_digest P 512 (pl_sharedSecret l)"
    and "ml_dsa65_keygen P (take 32 (pl_entropy l)) = (pl_dilithium_pk l, pl_dilithium_sk l)"
    and "pl_addressBytes l = take 20 (sha3_digest P 256 (pl_dilithium_pk l))"
    and "encode_plain (pl_addressBytes l) = Inr (pl_address l)"
    and "fst (noble_kyber_step P os) = (pl_kyber_pk l, pl_kyber_sk l, pl_sharedSecret l)"
  using assms
  by (auto simp add: qti2_run_def qti2_from_kem_def createHash_sha3_512_def split_beta first20_eq
        slice_def split: sum.splits)


lemma pqhd_seed_eq:
  "pqhd_dilithium_seed P ss =
     shake_digest P 256 (ss @ Buffer_from_string ''QTC_PQHD_DILITHIUM'') 32"
  by (simp add: pqhd_dilithium_seed_def SHAKE_digest_def SHAKE_update_def new_SHAKE_def)

lemma pqhd_js_run_facts:
  assumes "fst (pqhd_js_run P os) = Inr l"
  shows "ql_master_entropy l = shake_digest P 256 (ql_sharedSecret l @ ql_dilithium_pk l) 64"
    and "ml_dsa65_keygen P (pqhd_dilithium_seed P (ql_sharedSecret l)) =
           (ql_dilithium_pk l, ql_dilithium_sk l)"
    and "ql_addressBytes l = take 20 (sha3_digest P 256 (ql_master_entropy l))"
    and "encode_versioned 2 (ql_addressBytes l) = Inr (ql_address l)"
    and "fst (noble_kyber_step P os) = (ql_kyber_pk l, ql_kyber_sk l, ql_sharedSecret l)"
  using assms
  by (auto simp add: pqhd_js_run_def pqhd_js_from_kem_def pqhd_js_master_hash_def split_beta
        first20_eq SHAKE_digest_def SHAKE_update_def new_SHAKE_def split: sum.splits)


lemma generateKeyPair_facts:
  assumes "fst (generateKeyPair b P node os) = Inr node'"
  shows "path node' = path node" and "masterEntropy node' = masterEntropy node"
    and "\<exists>pk sk. publicKey node' = Some pk \<and> privateKey node' = Some sk \<and>
           fst (dilithium_from_seed b ''oqs_wallet_cli failed'' P (take 32 (masterEntropy node)) os)
             = Inr (pk, sk)"
  using assms
  by (auto simp add: generateKeyPair_def slice_def split_beta split: sum.splits prod.splits)

lemma deriveChild_facts:
  assumes "deriveChild P node i = Inr c"
  shows "path c = childPath node i"
    and "publicKey c = None"
    and "\<exists>indexData. writeUInt32BE i = Inr indexData \<and>
           masterEntropy c =
             sha3_digest P 512
               (masterEntropy node @ Buffer_from_string (path_toString (childPath node i)) @ indexData)"
  using assms
  by (auto simp add: deriveChild_def derivationData_def new_QTCHDNode_def SHA3_digest_def
        SHA3_update_def new_SHA3_def split: sum.splits)

lemma generateAddress_facts:
  assumes "generateAddress P node = Inr a"
  shows "\<exists>pk. publicKey node = Some pk \<and>
           encode_versioned 2 (take 20 (sha3_digest P 256 pk)) = Inr a"
  using assms
  by (auto simp add: generateAddress_def first20_eq split: option.splits)

lemma generateMaster_shape:
  assumes "fst (generateMaster b P os) = Inr (w, md)"
  shows "\<exists>kpk ksk ss dpk dsk node os2.
           fst (master_kyber_step b P os) = Inr (kpk, ksk, ss) \<and>
           fst (dilithium_from_seed b ''oqs_wallet_cli failed for Dilithium'' P
                  (pqhd_dilithium_seed P ss) (snd (master_kyber_step b P os))) = Inr (dpk, dsk) \<and>
           fst (generateKeyPair b P
                  (new_QTCHDNode (sha3_digest P 512 (ss @ dpk)) default_QTCHDPath) os2) = Inr node \<and>
           w = \<lparr>kyberPublicKey = Some kpk, kyberSecretKey = Some ksk, sharedSecret = Some ss,
                wallet_masterEntropy = Some (sha3_digest P 512 (ss @ dpk)),
                masterNode = Some node\<rparr> \<and>
           md_combined_input_b64 md = toString_base64 (ss @ dpk) \<and>
           md_master_entropy_b64 md = toString_base64 (sha3_digest P 512 (ss @ dpk))"
  using assms
  by (simp add: generateMaster_def hd_master_entropy_def SHA3_digest_def SHA3_update_def
        new_SHA3_def split_beta split: sum.splits prod.splits) force

lemma generateMaster_facts:
  assumes "fst (generateMaster b P os) = Inr (w, md)"
  shows "\<exists>kpk ksk ss dpk dsk node.
           w = \<lparr>kyberPublicKey = Some kpk, kyberSecretKey = Some ksk, sharedSecret = Some ss,
                wallet_masterEntropy = Some (sha3_digest P 512 (ss @ dpk)),
                masterNode = Some node\<rparr> \<and>
           path node = default_QTCHDPath \<and>
           masterEntropy node = sha3_digest P 512 (ss @ dpk) \<and>
           fst (master_kyber_step b P os) = Inr (kpk, ksk, ss) \<and>
           fst (dilithium_from_seed b ''oqs_wallet_cli failed for Dilithium'' P
                  (pqhd_dilithium_seed P ss) (snd (master_kyber_step b P os))) = Inr (dpk, dsk) \<and>
           md_combined_input_b64 md = toString_base64 (ss @ dpk) \<and>
           md_master_entropy_b64 md = toString_base64 (sha3_digest P 512 (ss @ dpk))"
proof -
  from generateMaster_shape [OF assms] obtain kpk ksk ss dpk dsk node os2 where
    k: "fst (master_kyber_step b P os) = Inr (kpk, ksk, ss)"
    and d: "fst (dilithium_from_seed b ''oqs_wallet_cli failed for Dilithium'' P
                  (pqhd_dilithium_seed P ss) (snd (master_kyber_step b P os))) = Inr (dpk, dsk)"
    and g: "fst (generateKeyPair b P
                  (new_QTCHDNode (sha3_digest P 512 (ss @ dpk)) default_QTCHDPath) os2) = Inr node"
    and w: "w = \<lparr>kyberPublicKey = Some kpk, kyberSecretKey = Some ksk, sharedSecret = Some ss,
                wallet_masterEntropy = Some (sha3_digest P 512 (ss @ dpk)),
                masterNode = Some node\<rparr>"
    and m: "md_combined_input_b64 md = toString_base64 (ss @ dpk)"
      "md_master_entropy_b64 md = toString_base64 (sha3_digest P 512 (ss @ dpk))"
    by blast
  from generateKeyPair_facts(1,2) [OF g]
  have "path node = default_QTCHDPath" "masterEntropy node = sha3_digest P 512 (ss @ dpk)"
    by (simp_all add: new_QTCHDNode_def)
  with k d w m show ?thesis by blast
qed

lemma round_Inl: "generateAddresses_round b P m (Inl e, os) i = (Inl e, os)"
  by (simp add: generateAddresses_round_def)

lemma rounds_Inl: "foldl (generateAddresses_round b P m) (Inl e, os) xs = (Inl e, os)"
  by (induction xs) (simp_all add: round_Inl)

lemma round_Inr:
  assumes "fst (generateAddresses_round b P m (Inr acc, os) i) = Inr es"
  shows "\<exists>pk sk a.
           es = acc @ [\<lparr>ae_index = i, ae_path = path_toString (childPath m i), ae_address = a,
                         ae_dilithium_public_b64 = toString_base64 pk,
                         ae_dilithium_private_b64 = toString_base64 sk\<rparr>] \<and>
           encode_versioned 2 (take 20 (sha3_digest P 256 pk)) = Inr a"
proof -
  from assms obtain c0 c a entry os1 where
    d: "deriveChild P m i = Inr c0"
    and g: "generateKeyPair b P c0 os = (Inr c, os1)"
    and ga: "generateAddress P c = Inr a"
    and en: "address_entry_of i c a = Inr entry"
    and es: "es = acc @ [entry]"
    by (auto simp add: generateAddresses_round_def split: sum.splits prod.splits)
  from g have g': "fst (generateKeyPair b P c0 os) = Inr c" by simp
  from generateKeyPair_facts(1) [OF g'] deriveChild_facts(1) [OF d]
  have p: "path c = childPath m i" by simp
  from generateAddress_facts [OF ga] obtain pk where
    pk: "publicKey c = Some pk" "encode_versioned 2 (take 20 (sha3_digest P 256 pk)) = Inr a"
    by blast
  from en pk(1) obtain sk where
    "entry = \<lparr>ae_index = i, ae_path = path_toString (path c), ae_address = a,
              ae_dilithium_public_b64 = toString_base64 pk,
              ae_dilithium_private_b64 = toString_base64 sk\<rparr>"
    by (auto simp add: address_entry_of_def split: option.splits)
  with es p pk(2) show ?thesis by auto
qed

lemma rounds_Inr:
  "fst (foldl (generateAddresses_round b P m) (Inr acc, os) xs) = Inr es \<Longrightarrow>
   \<exists>new. es = acc @ new \<and>
     map ae_path new = map (\<lambda>i. path_toString (childPath m i)) xs \<and>
     map ae_index new = xs \<and>
     (\<forall>e\<in>set new. \<exists>pk. ae_dilithium_public_b64 e = toString_base64 pk \<and>
        encode_versioned 2 (take 20 (sha3_digest P 256 pk)) = Inr (ae_address e))"
proof (induction xs arbitrary: acc os)
  case Nil
  then show ?case by simp
next
  case (Cons i xs)
  obtain r os1 where r: "generateAddresses_round b P m (Inr acc, os) i = (r, os1)"
    by (cases "generateAddresses_round b P m (Inr acc, os) i") auto
  show ?case
  proof (cases r)
    case (Inl e)
    with Cons.prems r show ?thesis by (simp add: rounds_Inl)
  next
    case (Inr acc1)
    with r have "fst (generateAddresses_round b P m (Inr acc, os) i) = Inr acc1" by simp
    from round_Inr [OF this] obtain pk sk a where
      a1: "acc1 = acc @ [\<lparr>ae_index = i, ae_path = path_toString (childPath m i), ae_address = a,
                         ae_dilithium_public_b64 = toString_base64 pk,
                         ae_dilithium_private_b64 = toString_base64 sk\<rparr>]"
      and ok: "encode_versioned 2 (take 20 (sha3_digest P 256 pk)) = Inr a"
      by blast
    from Cons.prems r Inr have "fst (foldl (generateAddresses_round b P m) (Inr acc1, os1) xs) = Inr es"
      by simp
    from Cons.IH [OF this] obtain new where
      n: "es = acc1 @ new"
      "map ae_path new = map (\<lambda>i. path_toString (childPath m i)) xs"
      "map ae_index new = xs"
      "\<forall>e\<in>set new. \<exists>pk. ae_dilithium_public_b64 e = toString_base64 pk \<and>
        encode_versioned 2 (take 20 (sha3_digest P 256 pk)) = Inr (ae_address e)"
      by blast
    show ?thesis
      apply (rule exI [of _ "\<lparr>ae_index = i, ae_path = path_toString (childPath m i), ae_address = a,
                         ae_dilithium_public_b64 = toString_base64 pk,
                         ae_dilithium_private_b64 = toString_base64 sk\<rparr> # new"])
      using n a1 ok by auto
  qed
qed

lemma generateAddresses_facts:
  assumes "masterNode w = Some m" "fst (generateAddresses b P w count ac ch os) = Inr es"
  shows "map ae_path es = map (\<lambda>i. path_toString (childPath m i)) [0..<count]"
    and "map ae_index es = [0..<count]"
    and "\<forall>e\<in>set es. \<exists>pk. ae_dilithium_public_b64 e = toString_base64 pk \<and>
           encode_versioned 2 (take 20 (sha3_digest P 256 pk)) = Inr (ae_address e)"
  using rounds_Inr [of b P m "[]" os "[0..<count]" es] assms
  by (auto simp add: generateAddresses_def)

lemma number_toString_44: "number_toString 44 = ''44''" and number_toString_0: "number_toString 0 = ''0''"
  by (simp_all add: number_toString.simps digit_char_def)

lemma default_child_path:
  "path m = default_QTCHDPath \<Longrightarrow>
   path_toString (childPath m i) = ''m/44'/0'/0/'' @ number_toString i"
  by (simp add: childPath_def default_QTCHDPath_def new_QTCHDPath_def path_toString_def
        number_toString_44 number_toString_0)


subsection \<open>Hexadecimal text read back by the helper program\<close>

lemma nyb_hex_digit: "d < 16 \<Longrightarrow> nyb (hex_digit d) = int d"
proof -
  assume "d < 16"
  then have "d = 0 \<or> d = 1 \<or> d = 2 \<or> d = 3 \<or> d = 4 \<or> d = 5 \<or> d = 6 \<or> d = 7 \<or> d = 8 \<or> d = 9 \<or>
      d = 10 \<or> d = 11 \<or> d = 12 \<or> d = 13 \<or> d = 14 \<or> d = 15" by arith
  then show ?thesis
    by (auto simp add: nyb_def hex_digit_def charCode_def)
qed

lemma byte_of_nibbles:
  "(of_int (push_bit 4 (int (unat b div 16)) OR int (unat b mod 16)) :: byte) = b"
proof -
  have a: "int (unat b div 16) = drop_bit 4 (uint b)"
    by (simp add: drop_bit_eq_div zdiv_int)
  have r: "int (unat b mod 16) = take_bit 4 (uint b)"
    by (simp add: take_bit_eq_mod zmod_int)
  have "push_bit 4 (drop_bit 4 (uint b)) OR take_bit 4 (uint b) = uint b"
    by (rule bit_eqI) (auto simp add: bit_or_iff bit_push_bit_iff bit_drop_bit_eq bit_take_bit_iff)
  then show ?thesis by (simp add: a r)
qed

lemma hex2bin_pairs_hex: "hex2bin_pairs (toString_hex bs) = Inr bs"
proof (induction bs)
  case Nil
  then show ?case by (simp add: toString_hex_def)
next
  case (Cons b bs)
  have d: "unat b div 16 < 16"
    using unsigned_less [of b, where 'a = nat] by (simp add: less_mult_imp_div_less)
  from Cons show ?case
    by (simp add: toString_hex_def nyb_hex_digit d byte_of_nibbles)
qed

lemma length_toString_hex: "length (toString_hex bs) = 2 * length bs"
  by (induction bs) (simp_all add: toString_hex_def)

lemma hex2bin_hex: "hex2bin (toString_hex bs) = Inr bs"
  by (simp add: hex2bin_def length_toString_hex hex2bin_pairs_hex)


subsection \<open>The helper program leaves the operating system's generator alone\<close>

lemmas cli_defs = RngScope_enter_def init_nist_kat_drbg_48_def RngScope_exit_def
  OQS_KEM_keypair_def OQS_KEM_encaps_def OQS_SIG_keypair_def OQS_randombytes_def

lemma cmd_gen_kyber_system:
  "system_rng (snd (cmd_gen_kyber_from_seed P h st)) = system_rng st"
  by (simp add: cmd_gen_kyber_from_seed_def cli_defs split_beta
        split: sum.splits option.splits)

lemma cmd_gen_dilithium_system:
  "system_rng (snd (cmd_gen_dilithium_from_seed P h st)) = system_rng st"
  by (simp add: cmd_gen_dilithium_from_seed_def cli_defs split_beta
        split: sum.splits option.splits)

lemma cmd_kem_self_system:
  "system_rng (snd (cmd_kem_self_from_seed P h st)) = system_rng st"
  by (simp add: cmd_kem_self_from_seed_def cli_defs split_beta
        split: sum.splits option.splits)

lemma cmd_gen_kyber_pure:
  "fst (cmd_gen_kyber_from_seed P h (st\<lparr>system_rng := os\<rparr>)) = fst (cmd_gen_kyber_from_seed P h st)"
  by (simp add: cmd_gen_kyber_from_seed_def cli_defs split_beta
        split: sum.splits option.splits)

lemma cmd_gen_dilithium_pure:
  "fst (cmd_gen_dilithium_from_seed P h (st\<lparr>system_rng := os\<rparr>)) = fst (cmd_gen_dilithium_from_seed P h st)"
  by (simp add: cmd_gen_dilithium_from_seed_def cli_defs split_beta
        split: sum.splits option.splits)

lemma cmd_kem_self_pure:
  "fst (cmd_kem_self_from_seed P h (st\<lparr>system_rng := os\<rparr>)) = fst (cmd_kem_self_from_seed P h st)"
  by (simp add: cmd_kem_self_from_seed_def cli_defs split_beta
        split: sum.splits option.splits)

lemma cli_dispatch_system:
  "system_rng (snd (cli_dispatch P args st)) = system_rng st"
  by (simp add: cli_dispatch_def cmd_gen_kyber_system cmd_gen_dilithium_system cmd_kem_self_system
        split: list.splits)

lemma cli_dispatch_pure:
  "fst (cli_dispatch P args (st\<lparr>system_rng := os\<rparr>)) = fst (cli_dispatch P args st)"
  by (simp add: cli_dispatch_def cmd_gen_kyber_pure cmd_gen_dilithium_pure cmd_kem_self_pure
        split: list.splits)

lemma oqs_wallet_cli_system: "snd (oqs_wallet_cli P args os) = os"
  using cli_dispatch_system [of P args "\<lparr>alg = OQS_RAND_alg_system, kat_ctx = [], system_rng = os\<rparr>"]
  by (auto simp add: oqs_wallet_cli_def split: prod.splits sum.splits cxx_error.splits)

lemma oqs_wallet_cli_pure: "fst (oqs_wallet_cli P args os) = fst (oqs_wallet_cli P args os')"
  using cli_dispatch_pure [where P = P and args = args and os = os'
      and st = "\<lparr>alg = OQS_RAND_alg_system, kat_ctx = [], system_rng = os\<rparr>"]
  by (auto simp add: oqs_wallet_cli_def split: prod.splits sum.splits cxx_error.splits)


subsection \<open>Runs on the helper program return when liboqs succeeds\<close>

lemma length_expand: "length (shake256_expand_seed_48 P seed d) = 48"
  by (simp add: shake256_expand_seed_48_def)

lemma providers_facts:
  assumes "providers_succeed P"
  shows "oqs_kem_enabled P" and "oqs_sig_enabled P"
    and "(oqs_kem_keypair P c = None) = False"
    and "(oqs_kem_encaps P pk c = None) = False"
    and "(oqs_sig_keypair P c = None) = False"
  using assms by (simp_all add: providers_succeed_def)

lemma kem_self_ok:
  assumes "providers_succeed P"
  shows "\<exists>pk sk ss. fst (oqs_wallet_cli P [''kem_self_from_seed'', toString_hex seed] os) =
     \<lparr>status = 0,
      stdout = [(''kyber_public_b64'', b64_encode pk), (''kyber_private_b64'', b64_encode sk),
                (''shared_b64'', b64_encode ss)],
      stderr = []\<rparr>"
  by (auto simp add: providers_facts [OF assms] oqs_wallet_cli_def cli_dispatch_def
        cmd_kem_self_from_seed_def hex2bin_hex cli_defs length_expand split_beta
        split: option.splits prod.splits)

lemma gen_dilithium_ok:
  assumes "providers_succeed P"
  shows "\<exists>pk sk. fst (oqs_wallet_cli P [''gen_dilithium_from_seed'', toString_hex seed] os) =
     \<lparr>status = 0,
      stdout = [(''dilithium_public_b64'', b64_encode pk), (''dilithium_private_b64'', b64_encode sk)],
      stderr = []\<rparr>"
  by (auto simp add: providers_facts [OF assms] oqs_wallet_cli_def cli_dispatch_def
        cmd_gen_dilithium_from_seed_def hex2bin_hex cli_defs length_expand split_beta
        split: option.splits prod.splits)

lemma qti3_kyber_step_ok:
  assumes "providers_succeed P"
  shows "\<exists>k. fst (qti3_kyber_step P os) = Inr k"
proof -
  from kem_self_ok [OF assms] obtain pk sk ss where
    "fst (oqs_wallet_cli P [''kem_self_from_seed'', toString_hex (fst (randomBytes 64 os))]
            (snd (randomBytes 64 os))) =
     \<lparr>status = 0,
      stdout = [(''kyber_public_b64'', b64_encode pk), (''kyber_private_b64'', b64_encode sk),
                (''shared_b64'', b64_encode ss)],
      stderr = []\<rparr>" by blast
  then show ?thesis
    by (simp add: qti3_kyber_step_def kem_self_from_seed_call_def kem_self_fields_def
          json_field_base64_def bind_js_def split_beta)
qed

lemma qti3_dilithium_step_ok:
  assumes "providers_succeed P"
  shows "\<exists>kp. fst (qti3_dilithium_step P ss os) = Inr kp"
proof -
  from gen_dilithium_ok [OF assms] obtain pk sk where
    "fst (oqs_wallet_cli P [''gen_dilithium_from_seed'', toString_hex (pqhd_dilithium_seed P ss)] os) =
     \<lparr>status = 0,
      stdout = [(''dilithium_public_b64'', b64_encode pk), (''dilithium_private_b64'', b64_encode sk)],
      stderr = []\<rparr>" by blast
  then show ?thesis
    by (simp add: qti3_dilithium_step_def gen_dilithium_from_seed_call_def dilithium_fields_def
          json_field_base64_def bind_js_def split_beta)
qed

lemma qti3_from_keys_ok: "\<exists>l. qti3_from_keys P k kp = Inr l"
proof -
  obtain kpk ksk ss where k: "k = (kpk, ksk, ss)" by (cases k) auto
  obtain dpk dsk where kp: "kp = (dpk, dsk)" by (cases kp) auto
  from encode_versioned_ok [OF two_small length_first20]
  obtain t where "encode_versioned 2
      (sha3_256_first20 P (SHAKE_digest P (qti3_master_hash ss dpk) 64)) = Inr t" by blast
  then show ?thesis by (simp add: qti3_from_keys_def k kp)
qed

lemma qti3_run_ok:
  assumes "providers_succeed P"
  shows "\<exists>l. fst (qti3_run P os) = Inr l"
proof -
  from qti3_kyber_step_ok [OF assms] obtain k where k: "fst (qti3_kyber_step P os) = Inr k" by blast
  from qti3_dilithium_step_ok [OF assms] obtain kp where
    kp: "fst (qti3_dilithium_step P (snd (snd k)) (snd (qti3_kyber_step P os))) = Inr kp" by blast
  from qti3_from_keys_ok obtain l where "qti3_from_keys P k kp = Inr l" by blast
  with k kp show ?thesis
    by (simp add: qti3_run_def split_beta split: prod.splits sum.splits)
qed

lemma demo_providers: "providers_succeed demo_primitives"
  by (simp add: providers_succeed_def demo_primitives_def)


subsection \<open>The HD scripts: key pairs, rounds of the address loop, the master\<close>

lemma dilithium_from_seed_system: "snd (dilithium_from_seed b fb P seed os) = os"
  by (cases b)
     (simp_all add: dilithium_from_seed_def gen_dilithium_from_seed_call_def oqs_wallet_cli_system
        split_beta)

lemma dilithium_from_seed_pure:
  "fst (dilithium_from_seed b fb P seed os) = fst (dilithium_from_seed b fb P seed os')"
  using oqs_wallet_cli_pure [of P "[''gen_dilithium_from_seed'', toString_hex seed]" os os']
  by (cases b) (simp_all add: dilithium_from_seed_def gen_dilithium_from_seed_call_def split_beta)

lemma dilithium_from_seed_ok:
  assumes "b = Liboqs \<longrightarrow> providers_succeed P"
  shows "\<exists>kp. fst (dilithium_from_seed b fb P seed os) = Inr kp"
proof (cases b)
  case Noble
  then show ?thesis by (simp add: dilithium_from_seed_def)
next
  case Liboqs
  with assms have p: "providers_succeed P" by simp
  from gen_dilithium_ok [OF p] obtain pk sk where
    "fst (oqs_wallet_cli P [''gen_dilithium_from_seed'', toString_hex seed] os) =
     \<lparr>status = 0,
      stdout = [(''dilithium_public_b64'', b64_encode pk), (''dilithium_private_b64'', b64_encode sk)],
      stderr = []\<rparr>" by blast
  with Liboqs show ?thesis
    by (simp add: dilithium_from_seed_def gen_dilithium_from_seed_call_def dilithium_fields_def
          json_field_base64_def bind_js_def split_beta)
qed

lemma generateKeyPair_system: "snd (generateKeyPair b P node os) = os"
  using dilithium_from_seed_system [of b "''oqs_wallet_cli failed''" P "slice (masterEntropy node) 0 32" os]
  by (auto simp add: generateKeyPair_def split: prod.splits sum.splits)

lemma generateKeyPair_pure:
  "fst (generateKeyPair b P node os) = fst (generateKeyPair b P node os')"
  using dilithium_from_seed_pure [of b "''oqs_wallet_cli failed''" P "slice (masterEntropy node) 0 32" os os']
  by (auto simp add: generateKeyPair_def split: prod.splits sum.splits)

lemma generateKeyPair_ok:
  assumes "b = Liboqs \<longrightarrow> providers_succeed P"
  shows "\<exists>n pk sk. fst (generateKeyPair b P node os) = Inr n \<and>
           publicKey n = Some pk \<and> privateKey n = Some sk"
proof -
  from dilithium_from_seed_ok [OF assms] obtain kp where
    "fst (dilithium_from_seed b ''oqs_wallet_cli failed'' P (slice (masterEntropy node) 0 32) os) = Inr kp"
    by blast
  then show ?thesis
    by (cases kp) (auto simp add: generateKeyPair_def split: prod.splits sum.splits)
qed

lemma deriveChild_ok: "i < 2 ^ 32 \<Longrightarrow> \<exists>c. deriveChild P m i = Inr c"
  by (simp add: deriveChild_def derivationData_def writeUInt32BE_def)

lemma generateAddress_ok: "publicKey n = Some pk \<Longrightarrow> \<exists>a. generateAddress P n = Inr a"
  using encode_versioned_ok [OF two_small length_first20, of P pk]
  by (simp add: generateAddress_def)

lemma generateKeyPair_leaves: "generateKeyPair b P node os = (r, os') \<Longrightarrow> os' = os"
  using generateKeyPair_system [of b P node os] by simp

lemma round_system: "snd (generateAddresses_round b P m (r, os) i) = os"
  by (auto simp add: generateAddresses_round_def split: prod.splits sum.splits
        dest: generateKeyPair_leaves)

lemma round_pure:
  "fst (generateAddresses_round b P m (r, os) i) = fst (generateAddresses_round b P m (r, os') i)"
proof (cases r)
  case (Inl e)
  then show ?thesis by (simp add: generateAddresses_round_def)
next
  case (Inr acc)
  show ?thesis
  proof (cases "deriveChild P m i")
    case (Inl e)
    with Inr show ?thesis by (simp add: generateAddresses_round_def)
  next
    case c: (Inr c0)
    from generateKeyPair_pure [of b P c0 os os'] Inr c show ?thesis
      by (auto simp add: generateAddresses_round_def split: prod.splits sum.splits)
  qed
qed

lemma round_ok:
  assumes "b = Liboqs \<longrightarrow> providers_succeed P" "i < 2 ^ 32"
  shows "\<exists>es. fst (generateAddresses_round b P m (Inr acc, os) i) = Inr es"
proof -
  from deriveChild_ok [OF assms(2)] obtain c0 where d: "deriveChild P m i = Inr c0" by blast
  from generateKeyPair_ok [OF assms(1)] obtain c pk sk where
    g: "fst (generateKeyPair b P c0 os) = Inr c" and k: "publicKey c = Some pk" "privateKey c = Some sk"
    by blast
  from generateAddress_ok [OF k(1)] obtain a where a: "generateAddress P c = Inr a" by blast
  from d g k a show ?thesis
    by (auto simp add: generateAddresses_round_def address_entry_of_def split: prod.splits sum.splits)
qed

lemma rounds_system: "snd (foldl (generateAddresses_round b P m) (r, os) xs) = os"
proof (induction xs arbitrary: r)
  case Nil
  then show ?case by simp
next
  case (Cons i xs)
  obtain r1 os1 where s: "generateAddresses_round b P m (r, os) i = (r1, os1)"
    by (cases "generateAddresses_round b P m (r, os) i") auto
  with round_system [of b P m r os i] have "os1 = os" by simp
  with s Cons.IH [of r1] show ?case by simp
qed

lemma rounds_pure:
  "fst (foldl (generateAddresses_round b P m) (r, os) xs) =
   fst (foldl (generateAddresses_round b P m) (r, os') xs)"
proof (induction xs arbitrary: r)
  case Nil
  then show ?case by simp
next
  case (Cons i xs)
  have a: "generateAddresses_round b P m (r, os) i =
      (fst (generateAddresses_round b P m (r, os) i), os)"
    using round_system [of b P m r os i] by (auto simp add: prod_eq_iff)
  have b: "generateAddresses_round b P m (r, os') i =
      (fst (generateAddresses_round b P m (r, os) i), os')"
    using round_system [of b P m r os' i] round_pure [of b P m r os i os']
    by (auto simp add: prod_eq_iff)
  show ?case
    apply (simp only: foldl_Cons)
    apply (subst a)
    apply (subst b)
    apply (rule Cons.IH)
    done
qed

lemma rounds_ok:
  assumes "b = Liboqs \<longrightarrow> providers_succeed P"
  shows "\<forall>i\<in>set xs. i < 2 ^ 32 \<Longrightarrow>
    \<exists>es. fst (foldl (generateAddresses_round b P m) (Inr acc, os) xs) = Inr es"
proof (induction xs arbitrary: acc)
  case Nil
  then show ?case by simp
next
  case (Cons i xs)
  from Cons.prems have i: "i < 2 ^ 32" by simp
  from round_ok [OF assms i] obtain es1 where
    "fst (generateAddresses_round b P m (Inr acc, os) i) = Inr es1" by blast
  with round_system [of b P m "Inr acc" os i]
  have s: "generateAddresses_round b P m (Inr acc, os) i = (Inr es1, os)"
    by (auto simp add: prod_eq_iff)
  from Cons.IH [of es1] Cons.prems s show ?case by simp
qed

lemma generateAddresses_system: "snd (generateAddresses b P w count ac ch os) = os"
  by (simp add: generateAddresses_def rounds_system split: option.splits)

lemma generateAddresses_pure:
  "fst (generateAddresses b P w count ac ch os) = fst (generateAddresses b P w count ac ch os')"
  using rounds_pure [of b P _ "Inr []" os "[0..<count]" os']
  by (simp add: generateAddresses_def split: option.splits)

lemma generateAddresses_ok:
  assumes "b = Liboqs \<longrightarrow> providers_succeed P" "masterNode w = Some m" "count \<le> 2 ^ 32"
  shows "\<exists>es. fst (generateAddresses b P w count ac ch os) = Inr es"
  using rounds_ok [OF assms(1), of "[0..<count]" m "[]" os] assms(2,3)
  by (simp add: generateAddresses_def)

lemma master_kyber_step_ok:
  assumes "b = Liboqs \<longrightarrow> providers_succeed P"
  shows "\<exists>k. fst (master_kyber_step b P os) = Inr k"
proof (cases b)
  case Noble
  then show ?thesis
    by (intro exI [of _ "fst (noble_kyber_step P os)"]) (simp add: master_kyber_step_def split_beta)
next
  case Liboqs
  with assms have p: "providers_succeed P" by simp
  from kem_self_ok [OF p] obtain pk sk ss where
    "fst (oqs_wallet_cli P [''kem_self_from_seed'', toString_hex (fst (randomBytes 64 os))]
            (snd (randomBytes 64 os))) =
     \<lparr>status = 0,
      stdout = [(''kyber_public_b64'', b64_encode pk), (''kyber_private_b64'', b64_encode sk),
                (''shared_b64'', b64_encode ss)],
      stderr = []\<rparr>" by blast
  with Liboqs show ?thesis
    by (simp add: master_kyber_step_def kem_self_from_seed_call_def kem_self_fields_def
          json_field_base64_def bind_js_def split_beta)
qed

lemma generateMaster_ok:
  assumes "b = Liboqs \<longrightarrow> providers_succeed P"
  shows "\<exists>w md. fst (generateMaster b P os) = Inr (w, md)"
proof -
  from master_kyber_step_ok [OF assms] obtain kpk ksk ss where
    k: "fst (master_kyber_step b P os) = Inr (kpk, ksk, ss)" by (metis prod_cases3)
  from dilithium_from_seed_ok [OF assms] obtain dpk dsk where
    d: "fst (dilithium_from_seed b ''oqs_wallet_cli failed for Dilithium'' P
              (pqhd_dilithium_seed P ss) (snd (master_kyber_step b P os))) = Inr (dpk, dsk)"
    by (metis surj_pair)
  from generateKeyPair_ok [OF assms] obtain n where
    g: "fst (generateKeyPair b P (new_QTCHDNode (hd_master_entropy P ss dpk) default_QTCHDPath)
              (snd (dilithium_from_seed b ''oqs_wallet_cli failed for Dilithium'' P
              (pqhd_dilithium_seed P ss) (snd (master_kyber_step b P os))))) = Inr n" by blast
  from k d g show ?thesis
    by (auto simp add: generateMaster_def split: prod.splits sum.splits)
qed


subsection \<open>Which operating-system bytes a run reads\<close>

lemma randomBytes_agree:
  "fst (randomBytes n os) = fst (randomBytes n os') \<longleftrightarrow> (\<forall>i<n. os i = os' i)"
  by (auto simp add: randomBytes_def)

lemma noble_kyber_step_system: "snd (noble_kyber_step P os) = snd (randomBytes 96 os)"
  by (simp add: noble_kyber_step_def ml_kem1024_encapsulate_def randomBytes_def split_beta
        add.assoc)

lemma noble_kyber_step_dep:
  assumes "fst (randomBytes 96 os) = fst (randomBytes 96 os')"
  shows "fst (noble_kyber_step P os) = fst (noble_kyber_step P os')"
proof -
  from assms have a: "\<forall>i<96. os i = os' i" by (simp add: randomBytes_agree)
  then have m1: "map os [0..<64] = map os' [0..<64]" by simp
  from a have m2: "map (\<lambda>i. os (i + 64)) [0..<32] = map (\<lambda>i. os' (i + 64)) [0..<32]" by simp
  show ?thesis
    by (simp add: noble_kyber_step_def ml_kem1024_encapsulate_def randomBytes_def split_beta m1 m2)
qed

lemma kem_self_call_system: "snd (kem_self_from_seed_call P os) = snd (randomBytes 64 os)"
  by (simp add: kem_self_from_seed_call_def oqs_wallet_cli_system split_beta)

lemma kem_self_call_dep:
  assumes "fst (randomBytes 64 os) = fst (randomBytes 64 os')"
  shows "fst (kem_self_from_seed_call P os) = fst (kem_self_from_seed_call P os')"
  using assms
    oqs_wallet_cli_pure [of P "[''kem_self_from_seed'', toString_hex (fst (randomBytes 64 os'))]"
      "snd (randomBytes 64 os)" "snd (randomBytes 64 os')"]
  by (simp add: kem_self_from_seed_call_def split_beta)

lemma qti3_kyber_step_system: "snd (qti3_kyber_step P os) = snd (randomBytes 64 os)"
  using kem_self_call_system [of P os]
  by (auto simp add: qti3_kyber_step_def split: prod.splits sum.splits)

lemma qti3_kyber_step_dep:
  assumes "fst (randomBytes 64 os) = fst (randomBytes 64 os')"
  shows "fst (qti3_kyber_step P os) = fst (qti3_kyber_step P os')"
  using kem_self_call_dep [OF assms, of P]
  by (auto simp add: qti3_kyber_step_def split: prod.splits sum.splits)

lemma qti3_dilithium_step_system: "snd (qti3_dilithium_step P ss os) = os"
  using oqs_wallet_cli_system [of P "[''gen_dilithium_from_seed'', toString_hex (pqhd_dilithium_seed P ss)]" os]
  by (auto simp add: qti3_dilithium_step_def gen_dilithium_from_seed_call_def
        split: prod.splits sum.splits)

lemma qti3_dilithium_step_pure:
  "fst (qti3_dilithium_step P ss os) = fst (qti3_dilithium_step P ss os')"
  using oqs_wallet_cli_pure [of P "[''gen_dilithium_from_seed'', toString_hex (pqhd_dilithium_seed P ss)]" os os']
  by (auto simp add: qti3_dilithium_step_def gen_dilithium_from_seed_call_def
        split: prod.splits sum.splits)

lemma qti3_run_system: "snd (qti3_run P os) = snd (randomBytes 64 os)"
proof -
  obtain r os1 where k: "qti3_kyber_step P os = (r, os1)" by (cases "qti3_kyber_step P os") auto
  with qti3_kyber_step_system [of P os] have os1: "os1 = snd (randomBytes 64 os)" by simp
  show ?thesis
  proof (cases r)
    case (Inl e)
    with k os1 show ?thesis by (simp add: qti3_run_def)
  next
    case (Inr kk)
    obtain r2 os2 where d: "qti3_dilithium_step P (snd (snd kk)) os1 = (r2, os2)"
      by (cases "qti3_dilithium_step P (snd (snd kk)) os1") auto
    with qti3_dilithium_step_system [of P "snd (snd kk)" os1] have "os2 = os1" by simp
    with k Inr d os1 show ?thesis by (cases r2) (simp_all add: qti3_run_def)
  qed
qed

lemma qti3_run_dep:
  assumes "fst (randomBytes 64 os) = fst (randomBytes 64 os')"
  shows "fst (qti3_run P os) = fst (qti3_run P os')"
proof -
  obtain r os1 where k: "qti3_kyber_step P os = (r, os1)" by (cases "qti3_kyber_step P os") auto
  obtain r' os1' where k': "qti3_kyber_step P os' = (r', os1')" by (cases "qti3_kyber_step P os'") auto
  from qti3_kyber_step_dep [OF assms, of P] k k' have r: "r' = r" by simp
  show ?thesis
  proof (cases r)
    case (Inl e)
    with k k' r show ?thesis by (simp add: qti3_run_def)
  next
    case (Inr kk)
    obtain r2 os2 where d: "qti3_dilithium_step P (snd (snd kk)) os1 = (r2, os2)"
      by (cases "qti3_dilithium_step P (snd (snd kk)) os1") auto
    obtain r2' os2' where d': "qti3_dilithium_step P (snd (snd kk)) os1' = (r2', os2')"
      by (cases "qti3_dilithium_step P (snd (snd kk)) os1'") auto
    from qti3_dilithium_step_pure [of P "snd (snd kk)" os1 os1'] d d' have "r2' = r2" by simp
    with k k' r Inr d d' show ?thesis by (cases r2) (simp_all add: qti3_run_def)
  qed
qed

lemma master_kyber_step_system:
  "snd (master_kyber_step b P os) = snd (randomBytes (case b of Noble \<Rightarrow> 96 | Liboqs \<Rightarrow> 64) os)"
  using kem_self_call_system [of P os] noble_kyber_step_system [of P os]
  by (cases b) (auto simp add: master_kyber_step_def split: prod.splits)

lemma master_kyber_step_dep:
  assumes "fst (randomBytes (case b of Noble \<Rightarrow> 96 | Liboqs \<Rightarrow> 64) os) =
           fst (randomBytes (case b of Noble \<Rightarrow> 96 | Liboqs \<Rightarrow> 64) os')"
  shows "fst (master_kyber_step b P os) = fst (master_kyber_step b P os')"
proof (cases b)
  case Noble
  with assms noble_kyber_step_dep [of os os' P] show ?thesis
    by (simp add: master_kyber_step_def split_beta)
next
  case Liboqs
  with assms kem_self_call_dep [of os os' P] show ?thesis
    by (simp add: master_kyber_step_def split_beta)
qed

lemma dilithium_from_seed_leaves: "dilithium_from_seed b fb P seed os = (r, os') \<Longrightarrow> os' = os"
  using dilithium_from_seed_system [of b fb P seed os] by simp

lemma generateMaster_system:
  "snd (generateMaster b P os) = snd (master_kyber_step b P os)"
  by (auto simp add: generateMaster_def split: prod.splits sum.splits
        dest: generateKeyPair_leaves dilithium_from_seed_leaves)

lemma dilithium_from_seed_eq:
  "dilithium_from_seed b fb P seed os = (fst (dilithium_from_seed b fb P seed os'), os)"
  using dilithium_from_seed_system [of b fb P seed os] dilithium_from_seed_pure [of b fb P seed os os']
  by (simp add: prod_eq_iff)

lemma generateKeyPair_eq:
  "generateKeyPair b P node os = (fst (generateKeyPair b P node os'), os)"
  using generateKeyPair_system [of b P node os] generateKeyPair_pure [of b P node os os']
  by (simp add: prod_eq_iff)

lemma generateAddresses_eq:
  "generateAddresses b P w count ac ch os = (fst (generateAddresses b P w count ac ch os'), os)"
  using generateAddresses_system [of b P w count ac ch os]
    generateAddresses_pure [of b P w count ac ch os os']
  by (simp add: prod_eq_iff)

lemma generateMaster_dep:
  assumes "fst (master_kyber_step b P os) = fst (master_kyber_step b P os')"
  shows "fst (generateMaster b P os) = fst (generateMaster b P os')"
proof -
  obtain r os1 where k: "master_kyber_step b P os = (r, os1)"
    by (cases "master_kyber_step b P os") auto
  obtain r' os1' where k': "master_kyber_step b P os' = (r', os1')"
    by (cases "master_kyber_step b P os'") auto
  from assms k k' have r: "r' = r" by simp
  show ?thesis
  proof (cases r)
    case (Inl e)
    with k k' r show ?thesis by (simp add: generateMaster_def)
  next
    case (Inr k3)
    obtain kpk ksk ss where k3: "k3 = (kpk, ksk, ss)" by (cases k3) auto
    define r2 where "r2 = fst (dilithium_from_seed b ''oqs_wallet_cli failed for Dilithium'' P
             (pqhd_dilithium_seed P ss) os1)"
    have d: "dilithium_from_seed b ''oqs_wallet_cli failed for Dilithium'' P
             (pqhd_dilithium_seed P ss) os1 = (r2, os1)"
      unfolding r2_def by (rule dilithium_from_seed_eq)
    have d': "dilithium_from_seed b ''oqs_wallet_cli failed for Dilithium'' P
             (pqhd_dilithium_seed P ss) os1' = (r2, os1')"
      unfolding r2_def by (rule dilithium_from_seed_eq)
    show ?thesis
    proof (cases r2)
      case (Inl e)
      with k k' r Inr k3 d d' show ?thesis by (simp add: generateMaster_def)
    next
      case kp: (Inr kp)
      obtain dpk dsk where kpe: "kp = (dpk, dsk)" by (cases kp) auto
      define r3 where "r3 = fst (generateKeyPair b P
             (new_QTCHDNode (hd_master_entropy P ss dpk) default_QTCHDPath) os1)"
      have g: "generateKeyPair b P
             (new_QTCHDNode (hd_master_entropy P ss dpk) default_QTCHDPath) os1 = (r3, os1)"
        unfolding r3_def by (rule generateKeyPair_eq)
      have g': "generateKeyPair b P
             (new_QTCHDNode (hd_master_entropy P ss dpk) default_QTCHDPath) os1' = (r3, os1')"
        unfolding r3_def by (rule generateKeyPair_eq)
      from k k' r Inr k3 d d' kp kpe g g' show ?thesis
        by (cases r3) (simp_all add: generateMaster_def)
    qed
  qed
qed

lemma hd_main_system: "snd (hd_main b P count ac ch os) = snd (master_kyber_step b P os)"
proof -
  obtain r os1 where m: "generateMaster b P os = (r, os1)" by (cases "generateMaster b P os") auto
  with generateMaster_system [of b P os] have os1: "os1 = snd (master_kyber_step b P os)" by simp
  show ?thesis
  proof (cases r)
    case (Inl e)
    with m os1 show ?thesis by (simp add: hd_main_def)
  next
    case (Inr wm)
    obtain w md where wm: "wm = (w, md)" by (cases wm) auto
    obtain r2 where a: "generateAddresses b P w count ac ch os1 = (r2, os1)"
      using generateAddresses_eq [of b P w count ac ch os1 os1] by blast
    from m os1 Inr wm a show ?thesis
      by (cases r2) (simp_all add: hd_main_def split: sum.splits)
  qed
qed

lemma hd_main_dep:
  assumes "fst (master_kyber_step b P os) = fst (master_kyber_step b P os')"
  shows "fst (hd_main b P count ac ch os) = fst (hd_main b P count ac ch os')"
proof -
  obtain r os1 where m: "generateMaster b P os = (r, os1)" by (cases "generateMaster b P os") auto
  obtain r' os1' where m': "generateMaster b P os' = (r', os1')"
    by (cases "generateMaster b P os'") auto
  from generateMaster_dep [OF assms] m m' have r: "r' = r" by simp
  show ?thesis
  proof (cases r)
    case (Inl e)
    with m m' r show ?thesis by (simp add: hd_main_def)
  next
    case (Inr wm)
    obtain w md where wm: "wm = (w, md)" by (cases wm) auto
    define r2 where "r2 = fst (generateAddresses b P w count ac ch os1)"
    have a: "generateAddresses b P w count ac ch os1 = (r2, os1)"
      unfolding r2_def by (rule generateAddresses_eq)
    have a': "generateAddresses b P w count ac ch os1' = (r2, os1')"
      unfolding r2_def by (rule generateAddresses_eq)
    from m m' r Inr wm a a' show ?thesis
      by (cases r2) (simp_all add: hd_main_def split: sum.splits)
  qed
qed

lemma qti2_run_system: "snd (qti2_run P os) = snd (randomBytes 96 os)"
  by (simp add: qti2_run_def split_beta noble_kyber_step_system)

lemma qtc2_run_system: "snd (qtc2_run P os) = snd (randomBytes 96 os)"
  by (simp add: qtc2_run_def split_beta noble_kyber_step_system)

lemma pqhd_js_run_system: "snd (pqhd_js_run P os) = snd (randomBytes 96 os)"
  by (simp add: pqhd_js_run_def split_beta noble_kyber_step_system)

lemma qti2_run_dep:
  "fst (randomBytes 96 os) = fst (randomBytes 96 os') \<Longrightarrow> fst (qti2_run P os) = fst (qti2_run P os')"
  using noble_kyber_step_dep [of os os' P] by (simp add: qti2_run_def split_beta)

lemma qtc2_run_dep:
  "fst (randomBytes 96 os) = fst (randomBytes 96 os') \<Longrightarrow> fst (qtc2_run P os) = fst (qtc2_run P os')"
  using noble_kyber_step_dep [of os os' P] by (simp add: qtc2_run_def split_beta)

lemma pqhd_js_run_dep:
  "fst (randomBytes 96 os) = fst (randomBytes 96 os') \<Longrightarrow>
   fst (pqhd_js_run P os) = fst (pqhd_js_run P os')"
  using noble_kyber_step_dep [of os os' P] by (simp add: pqhd_js_run_def split_beta)


subsection \<open>Runs on the stand-in primitives\<close>

lemma streams_agree_64: "fst (randomBytes 64 os_zero) = fst (randomBytes 64 os_late)"
  by (simp add: randomBytes_agree os_zero_def os_late_def)

lemma streams_agree_96: "fst (randomBytes 96 os_zero) = fst (randomBytes 96 os_later)"
  by (simp add: randomBytes_agree os_zero_def os_later_def)

lemma demo_shared_zero:
  "snd (snd (fst (noble_kyber_step demo_primitives os_zero))) = replicate 32 0"
  by (simp add: noble_kyber_step_def ml_kem1024_encapsulate_def randomBytes_def
        demo_primitives_def os_zero_def split_beta map_replicate_const)

lemma demo_shared_late:
  "snd (snd (fst (noble_kyber_step demo_primitives os_late))) = 1 # replicate 31 0"
proof -
  have "map (\<lambda>i. if i = 0 then 1 else (0 :: byte)) [0..<32] = 1 # replicate 31 0"
    by code_simp
  then show ?thesis
    by (simp add: noble_kyber_step_def ml_kem1024_encapsulate_def randomBytes_def
        demo_primitives_def os_late_def split_beta)
qed

lemma demo_kyber_step:
  "fst (noble_kyber_step demo_primitives os_zero) =
     (0xA1 # replicate 64 0, 0xA2 # replicate 64 0, replicate 32 0)"
  by (simp add: noble_kyber_step_def ml_kem1024_encapsulate_def randomBytes_def
        demo_primitives_def os_zero_def split_beta map_replicate_const)

lemma demo_seed: "pqhd_dilithium_seed demo_primitives (replicate 32 0) = replicate 32 0"
  by (simp add: pqhd_seed_eq demo_primitives_def pad_to_def)



lemma demo_program:
  "take 20 (sha3_digest demo_primitives 256 (0xD1 # replicate 32 0)) = 0xD1 # replicate 19 0"
  by (simp add: demo_primitives_def pad_to_def)

lemma demo_program_entropy:
  "take 20 (sha3_digest demo_primitives 256 (replicate 32 0 @ 0xD1 # replicate 31 0)) = replicate 20 0"
  by (simp add: demo_primitives_def pad_to_def)

lemma demo_keygen: "ml_dsa65_keygen demo_primitives s = (0xD1 # s, 0xD2 # s)"
  by (simp add: demo_primitives_def)


lemma address_zero: "encode_versioned 2 (replicate 20 0) = Inr ''qtc1zqqqqqqqqqqqqqqqqqqqqqqqqqqqqqqqqk2xrsp''"
  by code_simp



lemma demo_pqhd_js_run:
  assumes "fst (pqhd_js_run demo_primitives os_zero) = Inr l"
  shows "ql_sharedSecret l = replicate 32 0"
    and "ql_dilithium_pk l = 0xD1 # replicate 32 0"
    and "ql_master_entropy l = replicate 32 0 @ 0xD1 # replicate 31 0"
    and "ql_addressBytes l = replicate 20 0"
    and "ql_address l = ''qtc1zqqqqqqqqqqqqqqqqqqqqqqqqqqqqqqqqk2xrsp''"
proof -
  from pqhd_js_run_facts(5) [OF assms] demo_kyber_step
  show s: "ql_sharedSecret l = replicate 32 0" by simp
  from pqhd_js_run_facts(2) [OF assms] s
  show p: "ql_dilithium_pk l = 0xD1 # replicate 32 0" by (simp add: demo_seed demo_keygen)
  from pqhd_js_run_facts(1) [OF assms] s p
  show m: "ql_master_entropy l = replicate 32 0 @ 0xD1 # replicate 31 0"
    by (simp add: demo_primitives_def pad_to_def)
  from pqhd_js_run_facts(3) [OF assms] m
  show a: "ql_addressBytes l = replicate 20 0" by (simp add: demo_program_entropy)
  from pqhd_js_run_facts(4) [OF assms] a
  show "ql_address l = ''qtc1zqqqqqqqqqqqqqqqqqqqqqqqqqqqqqqqqk2xrsp''" by (simp add: address_zero)
qed

lemma demo_qti2_run:
  assumes "fst (qti2_run demo_primitives os_zero) = Inr l"
  shows "pl_sharedSecret l = replicate 32 0"
    and "pl_dilithium_pk l = 0xD1 # replicate 32 0"
    and "pl_addressBytes l = 0xD1 # replicate 19 0"
proof -
  from qti2_run_facts(5) [OF assms] demo_kyber_step
  show s: "pl_sharedSecret l = replicate 32 0" by simp
  from qti2_run_facts(1) [OF assms] s have e: "pl_entropy l = replicate 32 0 @ replicate 32 0"
    by (simp add: demo_primitives_def pad_to_def)
  from qti2_run_facts(2) [OF assms] e
  show p: "pl_dilithium_pk l = 0xD1 # replicate 32 0" by (simp add: demo_keygen)
  from qti2_run_facts(3) [OF assms] p
  show "pl_addressBytes l = 0xD1 # replicate 19 0" by (simp add: demo_program)
qed

lemma address_plain:
  "encode_plain (0xD1 # replicate 19 0) = Inr ''qtc16yqqqqqqqqqqqqqqqqqqqqqqqqqqqqqqtlrq7g''"
  by code_simp

lemma words_zero: "toWords (replicate 20 0) = Inr (replicate 32 0)"
  by code_simp

lemma words_pk: "toWords (0xD1 # replicate 19 0) = Inr (26 # 4 # replicate 30 0)"
  by code_simp

lemma address_zero_m:
  "encode Bech32m ''qtc'' (2 # replicate 32 0) = Inr ''qtc1zqqqqqqqqqqqqqqqqqqqqqqqqqqqqqqqqrkk04r''"
  by code_simp

lemma address_pk_m:
  "encode Bech32m ''qtc'' (1 # 26 # 4 # replicate 30 0) = Inr ''qtc1p6yqqqqqqqqqqqqqqqqqqqqqqqqqqqqqqzkzvpf''"
  by code_simp



subsection \<open>The claims about the scripts\<close>



text \<open>
  Claim C10.  \<open>generateAddresses\<close> does not depend on its account and change arguments: for
  every count and any two pairs of arguments the result is the same.  Every child path is
  built from the master node's path, which \<open>generateMaster\<close> sets to the default
  \<open>m/44'/0'/0\<close>, so the paths of the generated entries are \<open>m/44'/0'/0/i\<close> for
  \<open>i = 0, ..., count - 1\<close>.
\<close>

theorem generateAddresses_ignores_account_change:
  "generateAddresses b P w count account1 change1 os =
     generateAddresses b P w count account2 change2 os \<and>
   (fst (generateMaster b P os0) = Inr (w, md) \<longrightarrow>
    fst (generateAddresses b P w count account1 change1 os) = Inr es \<longrightarrow>
    map ae_path es = map (\<lambda>i. ''m/44'/0'/0/'' @ number_toString i) [0..<count])"
proof (intro conjI impI)
  show "generateAddresses b P w count account1 change1 os =
     generateAddresses b P w count account2 change2 os"
    by (simp add: generateAddresses_def)
next
  assume m: "fst (generateMaster b P os0) = Inr (w, md)"
    and a: "fst (generateAddresses b P w count account1 change1 os) = Inr es"
  from generateMaster_facts [OF m] obtain node where
    n: "masterNode w = Some node" "path node = default_QTCHDPath"
    by auto
  from generateAddresses_facts(1) [OF n(1) a] n(2)
  show "map ae_path es = map (\<lambda>i. ''m/44'/0'/0/'' @ number_toString i) [0..<count]"
    by (simp add: default_child_path)
qed

theorem generateAddresses_ignores_account_change_witness:
  "\<exists>w md es. fst (generateMaster Noble demo_primitives os_zero) = Inr (w, md) \<and>
     fst (generateAddresses Noble demo_primitives w 3 0 0 os_zero) = Inr es \<and>
     generateAddresses Noble demo_primitives w 3 0 0 os_zero =
       generateAddresses Noble demo_primitives w 3 7 1 os_zero \<and>
     map ae_path es = [''m/44'/0'/0/0'', ''m/44'/0'/0/1'', ''m/44'/0'/0/2'']"
proof -
  from generateMaster_ok [of Noble demo_primitives os_zero] obtain w md where
    m: "fst (generateMaster Noble demo_primitives os_zero) = Inr (w, md)" by auto
  from generateMaster_facts [OF m] obtain node where n: "masterNode w = Some node" by auto
  from generateAddresses_ok [of Noble demo_primitives w node 3 0 0 os_zero] n obtain es where
    es: "fst (generateAddresses Noble demo_primitives w 3 0 0 os_zero) = Inr es" by auto
  have u: "[0..<3] = [0, 1, 2]" by code_simp
  from generateAddresses_ignores_account_change
    [of Noble demo_primitives w 3 0 0 os_zero 7 1 os_zero md es] m es
  have "generateAddresses Noble demo_primitives w 3 0 0 os_zero =
       generateAddresses Noble demo_primitives w 3 7 1 os_zero"
    and "map ae_path es = [''m/44'/0'/0/0'', ''m/44'/0'/0/1'', ''m/44'/0'/0/2'']"
    by (simp_all add: u number_toString_small digit_char_def)
  with m es show ?thesis
    by - (rule exI [of _ w], rule exI [of _ md], rule exI [of _ es], intro conjI, assumption+)
qed


text \<open>
  Claim C9.  In the pure-JavaScript single PQ-HD script the wallet literal reads
  \<open>combined_input\<close>, which that script never binds: assembling the record throws the
  reference error for every run, so no record with a \<open>combined_input_b64\<close> field is produced.
  In \<^verbatim>\<open>qti3.js\<close> the value is bound before the literal, and the field is the base64 text of
  the shared secret followed by the Dilithium public key.
\<close>

theorem combined_input_unbound:
  "fst (pqhd_js_generatePQHDWallet P os) = Inl (ReferenceError ''combined_input is not defined'') \<and>
   (fst (qti3_run P os') = Inr l \<longrightarrow>
    (\<exists>w. fst (qti3_generatePQHDWallet P os') = Inr w \<and>
         qw_combined_input_b64 w = toString_base64 (ql_sharedSecret l @ ql_dilithium_pk l)))"
proof (intro conjI impI)
  from pqhd_js_run_ok [of P os] obtain l0 where "fst (pqhd_js_run P os) = Inr l0" by blast
  then show "fst (pqhd_js_generatePQHDWallet P os) =
      Inl (ReferenceError ''combined_input is not defined'')"
    by (simp add: pqhd_js_generatePQHDWallet_def split_beta pqhd_wallet_literal_def bind_js_def
          identifier_base64_def pqhd_js_scope_def split: prod.splits sum.splits)
next
  assume "fst (qti3_run P os') = Inr l"
  then show "\<exists>w. fst (qti3_generatePQHDWallet P os') = Inr w \<and>
         qw_combined_input_b64 w = toString_base64 (ql_sharedSecret l @ ql_dilithium_pk l)"
    by (simp add: qti3_generatePQHDWallet_def split_beta pqhd_wallet_literal_def bind_js_def
          identifier_base64_def qti3_scope_def qti3_combined_input_def split: prod.splits sum.splits)
qed

theorem combined_input_unbound_witness:
  "fst (pqhd_js_generatePQHDWallet demo_primitives os_zero) =
     Inl (ReferenceError ''combined_input is not defined'') \<and>
   (\<exists>l w. fst (qti3_run demo_primitives os_zero) = Inr l \<and>
      fst (qti3_generatePQHDWallet demo_primitives os_zero) = Inr w \<and>
      qw_combined_input_b64 w = toString_base64 (ql_sharedSecret l @ ql_dilithium_pk l))"
proof -
  from qti3_run_ok [OF demo_providers] obtain l where
    l: "fst (qti3_run demo_primitives os_zero) = Inr l" by blast
  from combined_input_unbound [of demo_primitives os_zero os_zero l] l show ?thesis by blast
qed


text \<open>
  Claim C1, as stated, fails on the pure-JavaScript scripts.  The two streams \<open>os_zero\<close> and
  \<open>os_late\<close> give \<^verbatim>\<open>qti2.js\<close> the same 64-byte seed, yet the runs end with different shared
  secrets and different wallets: \<open>ml_kem1024.encapsulate(kyber_pk)\<close> reads 32 further bytes
  from the operating system, and the streams differ in the first of them.
\<close>

theorem encapsulate_reads_os_entropy:
  "fst (randomBytes 64 os_zero) = fst (randomBytes 64 os_late) \<and>
   map_sum id pl_sharedSecret (fst (qti2_run demo_primitives os_zero)) = Inr (replicate 32 0) \<and>
   map_sum id pl_sharedSecret (fst (qti2_run demo_primitives os_late)) = Inr (1 # replicate 31 0) \<and>
   fst (qti2_generateWallet demo_primitives os_zero) \<noteq> fst (qti2_generateWallet demo_primitives os_late)"
proof -
  from qti2_run_ok obtain l0 where l0: "fst (qti2_run demo_primitives os_zero) = Inr l0" by blast
  from qti2_run_ok obtain l1 where l1: "fst (qti2_run demo_primitives os_late) = Inr l1" by blast
  from qti2_run_facts(5) [OF l0] demo_shared_zero have s0: "pl_sharedSecret l0 = replicate 32 0"
    by simp
  from qti2_run_facts(5) [OF l1] demo_shared_late have s1: "pl_sharedSecret l1 = 1 # replicate 31 0"
    by simp
  have b: "toString_base64 (replicate 32 0) \<noteq> toString_base64 (1 # replicate 31 0)"
    by code_simp
  have "pw_shared_secret_b64 (primary_wallet_of l0) \<noteq> pw_shared_secret_b64 (primary_wallet_of l1)"
    using b by (simp add: primary_wallet_of_def s0 s1)
  then have "primary_wallet_of l0 \<noteq> primary_wallet_of l1" by auto
  with l0 l1 s0 s1 streams_agree_64 show ?thesis
    by (simp add: qti2_generateWallet_def split_beta)
qed


text \<open>
  Claim C1, amended.  In the scripts that obtain their keys from the helper program
  (\<^verbatim>\<open>qti3.js\<close> and the HD script on \<open>oqs_wallet_cli\<close>) two runs with the same 64-byte seed
  return the same locals, the same wallet record, the same master and the same export, and
  a run reads nothing from the operating system after the seed.  In the scripts on
  \<^verbatim>\<open>noble-post-quantum\<close> (\<^verbatim>\<open>qti2.js\<close>, \<^verbatim>\<open>qtc2.js\<close>, the pure-JavaScript single PQ-HD and HD
  scripts) a run reads the seed and then the 32 bytes of the encapsulation message, 96
  bytes in all, and two runs that read the same 96 bytes return the same results.
\<close>

theorem generation_determinism:
  "(fst (randomBytes 64 os) = fst (randomBytes 64 os') \<longrightarrow>
      fst (qti3_run P os) = fst (qti3_run P os') \<and>
      fst (qti3_generatePQHDWallet P os) = fst (qti3_generatePQHDWallet P os') \<and>
      fst (generateMaster Liboqs P os) = fst (generateMaster Liboqs P os') \<and>
      fst (hd_main Liboqs P count ac ch os) = fst (hd_main Liboqs P count ac ch os')) \<and>
   snd (qti3_run P os) = snd (randomBytes 64 os) \<and>
   snd (hd_main Liboqs P count ac ch os) = snd (randomBytes 64 os) \<and>
   (fst (randomBytes 96 os) = fst (randomBytes 96 os') \<longrightarrow>
      fst (qti2_run P os) = fst (qti2_run P os') \<and>
      fst (qtc2_run P os) = fst (qtc2_run P os') \<and>
      fst (pqhd_js_run P os) = fst (pqhd_js_run P os') \<and>
      fst (generateMaster Noble P os) = fst (generateMaster Noble P os') \<and>
      fst (hd_main Noble P count ac ch os) = fst (hd_main Noble P count ac ch os')) \<and>
   snd (qti2_run P os) = snd (randomBytes 96 os) \<and>
   snd (qtc2_run P os) = snd (randomBytes 96 os) \<and>
   snd (pqhd_js_run P os) = snd (randomBytes 96 os) \<and>
   snd (hd_main Noble P count ac ch os) = snd (randomBytes 96 os)"
proof (intro conjI impI)
  assume a: "fst (randomBytes 64 os) = fst (randomBytes 64 os')"
  show r: "fst (qti3_run P os) = fst (qti3_run P os')" by (rule qti3_run_dep [OF a])
  obtain x o1 where x: "qti3_run P os = (x, o1)" by (cases "qti3_run P os") auto
  obtain x' o1' where x': "qti3_run P os' = (x', o1')" by (cases "qti3_run P os'") auto
  from r x x' have "x' = x" by simp
  with x x' show "fst (qti3_generatePQHDWallet P os) = fst (qti3_generatePQHDWallet P os')"
    by (cases x) (simp_all add: qti3_generatePQHDWallet_def)
  from a master_kyber_step_dep [of Liboqs os os' P]
  have m: "fst (master_kyber_step Liboqs P os) = fst (master_kyber_step Liboqs P os')" by simp
  show "fst (generateMaster Liboqs P os) = fst (generateMaster Liboqs P os')"
    by (rule generateMaster_dep [OF m])
  show "fst (hd_main Liboqs P count ac ch os) = fst (hd_main Liboqs P count ac ch os')"
    by (rule hd_main_dep [OF m])
next
  assume a: "fst (randomBytes 96 os) = fst (randomBytes 96 os')"
  show "fst (qti2_run P os) = fst (qti2_run P os')" by (rule qti2_run_dep [OF a])
  show "fst (qtc2_run P os) = fst (qtc2_run P os')" by (rule qtc2_run_dep [OF a])
  show "fst (pqhd_js_run P os) = fst (pqhd_js_run P os')" by (rule pqhd_js_run_dep [OF a])
  from a master_kyber_step_dep [of Noble os os' P]
  have m: "fst (master_kyber_step Noble P os) = fst (master_kyber_step Noble P os')" by simp
  show "fst (generateMaster Noble P os) = fst (generateMaster Noble P os')"
    by (rule generateMaster_dep [OF m])
  show "fst (hd_main Noble P count ac ch os) = fst (hd_main Noble P count ac ch os')"
    by (rule hd_main_dep [OF m])
next
  show "snd (qti3_run P os) = snd (randomBytes 64 os)" by (rule qti3_run_system)
  show "snd (hd_main Liboqs P count ac ch os) = snd (randomBytes 64 os)"
    by (simp add: hd_main_system master_kyber_step_system)
  show "snd (qti2_run P os) = snd (randomBytes 96 os)" by (rule qti2_run_system)
  show "snd (qtc2_run P os) = snd (randomBytes 96 os)" by (rule qtc2_run_system)
  show "snd (pqhd_js_run P os) = snd (randomBytes 96 os)" by (rule pqhd_js_run_system)
  show "snd (hd_main Noble P count ac ch os) = snd (randomBytes 96 os)"
    by (simp add: hd_main_system master_kyber_step_system)
qed

theorem generation_determinism_witness:
  "fst (randomBytes 64 os_zero) = fst (randomBytes 64 os_late) \<and>
   fst (randomBytes 96 os_zero) = fst (randomBytes 96 os_later) \<and>
   (\<exists>l. fst (qti3_run demo_primitives os_zero) = Inr l \<and>
        fst (qti3_run demo_primitives os_late) = Inr l) \<and>
   fst (hd_main Liboqs demo_primitives 2 0 0 os_zero) =
     fst (hd_main Liboqs demo_primitives 2 0 0 os_late) \<and>
   (\<exists>l. fst (qti2_run demo_primitives os_zero) = Inr l \<and>
        fst (qti2_run demo_primitives os_later) = Inr l) \<and>
   fst (hd_main Noble demo_primitives 2 0 0 os_zero) =
     fst (hd_main Noble demo_primitives 2 0 0 os_later)"
proof -
  from qti3_run_ok [OF demo_providers] obtain l where
    l: "fst (qti3_run demo_primitives os_zero) = Inr l" by blast
  from qti2_run_ok obtain l2 where l2: "fst (qti2_run demo_primitives os_zero) = Inr l2" by blast
  from generation_determinism [of os_zero os_late demo_primitives 2 0 0] streams_agree_64 l
  have a: "fst (qti3_run demo_primitives os_late) = Inr l"
    "fst (hd_main Liboqs demo_primitives 2 0 0 os_zero) =
     fst (hd_main Liboqs demo_primitives 2 0 0 os_late)" by simp_all
  from generation_determinism [of os_zero os_later demo_primitives 2 0 0] streams_agree_96 l2
  have b: "fst (qti2_run demo_primitives os_later) = Inr l2"
    "fst (hd_main Noble demo_primitives 2 0 0 os_zero) =
     fst (hd_main Noble demo_primitives 2 0 0 os_later)" by simp_all
  from a b l l2 streams_agree_64 streams_agree_96 show ?thesis by blast
qed















text \<open>
  Claim C5 does not hold of the scripts, against their own comments and the README
  (\<open>bech32m\<close>, \<open>witness v=1\<close>).  Every script imports the export \<open>bech32\<close> of the package, whose
  checksum constant is 1.  On the stand-ins and the all-zero stream the pure-JavaScript
  single PQ-HD run encodes the program of 20 zero bytes with version 2 as
  \<open>qtc1z...k2xrsp\<close>, the text of the original constant, where the bech32m constant gives
  \<open>qtc1z...rkk04r\<close>.  The run of \<^verbatim>\<open>qti2.js\<close> encodes its program with no version value in front:
  its address is \<open>qtc16yq...tlrq7g\<close>, where version 1 under bech32m gives \<open>qtc1p6yq...zkzvpf\<close>.
\<close>

theorem scripts_use_bech32_constant:
  "map_sum id ql_addressBytes (fst (pqhd_js_run demo_primitives os_zero)) = Inr (replicate 20 0) \<and>
   map_sum id ql_address (fst (pqhd_js_run demo_primitives os_zero)) =
     Inr ''qtc1zqqqqqqqqqqqqqqqqqqqqqqqqqqqqqqqqk2xrsp'' \<and>
   toWords (replicate 20 0) = Inr (replicate 32 0) \<and>
   encode Bech32 ''qtc'' (2 # replicate 32 0) = Inr ''qtc1zqqqqqqqqqqqqqqqqqqqqqqqqqqqqqqqqk2xrsp'' \<and>
   encode Bech32m ''qtc'' (2 # replicate 32 0) = Inr ''qtc1zqqqqqqqqqqqqqqqqqqqqqqqqqqqqqqqqrkk04r'' \<and>
   map_sum id pl_addressBytes (fst (qti2_run demo_primitives os_zero)) = Inr (0xD1 # replicate 19 0) \<and>
   map_sum id pl_address (fst (qti2_run demo_primitives os_zero)) =
     Inr ''qtc16yqqqqqqqqqqqqqqqqqqqqqqqqqqqqqqtlrq7g'' \<and>
   toWords (0xD1 # replicate 19 0) = Inr (26 # 4 # replicate 30 0) \<and>
   encode Bech32m ''qtc'' (1 # 26 # 4 # replicate 30 0) =
     Inr ''qtc1p6yqqqqqqqqqqqqqqqqqqqqqqqqqqqqqqzkzvpf''"
proof -
  from pqhd_js_run_ok obtain l where l: "fst (pqhd_js_run demo_primitives os_zero) = Inr l" by blast
  from qti2_run_ok obtain l2 where l2: "fst (qti2_run demo_primitives os_zero) = Inr l2" by blast
  from qti2_run_facts(4) [OF l2] demo_qti2_run(3) [OF l2]
  have a2: "pl_address l2 = ''qtc16yqqqqqqqqqqqqqqqqqqqqqqqqqqqqqqtlrq7g''"
    by (simp add: address_plain)
  have b: "encode Bech32 ''qtc'' (2 # replicate 32 0) = Inr ''qtc1zqqqqqqqqqqqqqqqqqqqqqqqqqqqqqqqqk2xrsp''"
    using address_zero by (simp add: encode_versioned_def words_zero)
  show ?thesis
    by (simp only: l l2 map_sum.simps id_apply demo_pqhd_js_run(4,5) [OF l] demo_qti2_run(3) [OF l2]
          a2 words_zero words_pk b address_zero_m address_pk_m simp_thms)
qed

end
